(* ===== verification/Platform.thy ===== *)
theory Platform
  imports Main "HOL-Library.Word"
begin

text \<open>
  The platform layer shared by every component of the ratgdo controller
  (\<^verbatim>\<open>src/components/ratgdo/ratgdo.cpp\<close>): the types of the model (the
  32-bit \<open>millis()\<close> clock, bytes, pin levels), the pins named by the source, the
  observable effects of the firmware (pin writes, delays, serial bytes, status
  publications, counter persistence) and the configuration the source reads from
  its header.  The effects are recorded in order in the field \<open>out\<close> of an
  \<open>io_state\<close> record, which every component state extends.  The lemmas at the end
  are the shared simplification rules for effects and for elapsed-time arithmetic on
  the wrapping clock.
\<close>

named_theorems effect_simps "unfolding rules of the platform primitives"

section \<open>Types\<close>

text \<open>
  \<open>millis()\<close> returns an \<open>unsigned long\<close>, 32 bits on the ESP8266: every elapsed
  time of the source, \<open>currentMillis - last\<close>, is a subtraction modulo \<open>2^32\<close>.
\<close>

type_synonym ms = "32 word"
type_synonym byte = "8 word"

abbreviation HIGH :: bool where "HIGH \<equiv> True"
abbreviation LOW :: bool where "LOW \<equiv> False"

datatype pin =
    TRIGGER_OPEN | TRIGGER_CLOSE | TRIGGER_LIGHT
  | STATUS_DOOR | STATUS_OBST
  | INPUT_RPM1 | INPUT_RPM2 | INPUT_OBST
  | OUTPUT_GDO

text \<open>A snapshot of the input levels that \<open>digitalRead\<close> returns.\<close>

type_synonym pins = "pin \<Rightarrow> bool"

datatype topic = overallStatusTopic | doorStatusTopic | obstructionStatusTopic | rollingCodeTopic

datatype effect =
    Publish topic string bool
  | DigitalWrite pin bool
  | DelayMicroseconds nat
  | Delay nat
  | SerialWrite "byte list"
  | StoreCounter "32 word"

record io_state =
  pin_out :: "pin \<Rightarrow> bool"
  out :: "effect list"

text \<open>
  What the firmware takes from its header and its configuration: whether rolling
  codes are used, whether publication is configured, the payload length and the
  fixed payloads, and the rolling-code payload encoder (an opaque collaborator that
  maps a command name and a counter value to a payload).
\<close>

record config =
  useRollingCodes :: bool
  isConfigFileOk :: bool
  CODE_LENGTH :: nat
  SYNC_CODE :: "nat \<Rightarrow> byte list"
  DOOR_CODE :: "byte list"
  LIGHT_CODE :: "byte list"
  encodeRollingCode :: "string \<Rightarrow> 32 word \<Rightarrow> byte list"

section \<open>Platform primitives\<close>

definition emit :: "effect \<Rightarrow> 'a io_state_scheme \<Rightarrow> 'a io_state_scheme" where
  "emit e s = s\<lparr>out := out s @ [e]\<rparr>"

definition digitalWrite :: "pin \<Rightarrow> bool \<Rightarrow> 'a io_state_scheme \<Rightarrow> 'a io_state_scheme" where
  "digitalWrite p v s = emit (DigitalWrite p v) (s\<lparr>pin_out := (pin_out s)(p := v)\<rparr>)"

definition delayMicroseconds :: "nat \<Rightarrow> 'a io_state_scheme \<Rightarrow> 'a io_state_scheme" where
  "delayMicroseconds n s = emit (DelayMicroseconds n) s"

definition delay :: "nat \<Rightarrow> 'a io_state_scheme \<Rightarrow> 'a io_state_scheme" where
  "delay n s = emit (Delay n) s"

definition publish :: "topic \<Rightarrow> string \<Rightarrow> bool \<Rightarrow> 'a io_state_scheme \<Rightarrow> 'a io_state_scheme" where
  "publish t v retained s = emit (Publish t v retained) s"

text \<open>
  The publication pattern the source repeats at every transition
  (\<open>if (isConfigFileOk) { publish(overallStatusTopic, v, true);
  publish(topic, v, true); }\<close>), as in \<open>sendDoorStatus\<close>.
\<close>

definition publishStatus :: "config \<Rightarrow> topic \<Rightarrow> string \<Rightarrow> 'a io_state_scheme \<Rightarrow> 'a io_state_scheme" where
  "publishStatus cfg t v s =
     (if isConfigFileOk cfg then publish t v True (publish overallStatusTopic v True s) else s)"

section \<open>The bus as the opener sees it\<close>

text \<open>
  The effects on the opener's bus are the writes of \<open>OUTPUT_GDO\<close>, the microsecond
  delays and the serial writes.  A frame is the wake-up pulse (1305 \<mu>s high), the
  pre-amble gap (1260 \<mu>s low) and the payload.  A log is framed when its bus effects
  are exactly one frame around each payload it writes, in order.
\<close>

fun is_bus :: "effect \<Rightarrow> bool" where
  "is_bus (DigitalWrite p v) = (p = OUTPUT_GDO)"
| "is_bus (DelayMicroseconds n) = True"
| "is_bus (SerialWrite b) = True"
| "is_bus e = False"

definition wake_frame :: "byte list \<Rightarrow> effect list" where
  "wake_frame p = [DigitalWrite OUTPUT_GDO HIGH, DelayMicroseconds 1305,
                   DigitalWrite OUTPUT_GDO LOW, DelayMicroseconds 1260, SerialWrite p]"

definition payloads :: "effect list \<Rightarrow> byte list list" where
  "payloads es = concat (map (\<lambda>e. case e of SerialWrite p \<Rightarrow> [p] | _ \<Rightarrow> []) es)"

definition stores :: "effect list \<Rightarrow> 32 word list" where
  "stores es = concat (map (\<lambda>e. case e of StoreCounter c \<Rightarrow> [c] | _ \<Rightarrow> []) es)"

definition framed :: "effect list \<Rightarrow> bool" where
  "framed es \<longleftrightarrow> filter is_bus es = concat (map wake_frame (payloads es))"

section \<open>Shared lemmas\<close>

text \<open>The effects a status publication appends.\<close>

definition status_msgs :: "config \<Rightarrow> topic \<Rightarrow> string \<Rightarrow> effect list" where
  "status_msgs cfg t v =
     (if isConfigFileOk cfg then [Publish overallStatusTopic v True, Publish t v True] else [])"

text \<open>
  Every primitive is a record update of \<open>pin_out\<close> and \<open>out\<close>; in this normal form
  the record package sees that all other fields, of any extension, are unchanged.
\<close>

lemma publishStatus_eq [effect_simps]:
  "publishStatus cfg t v s = s\<lparr>out := out s @ status_msgs cfg t v\<rparr>"
  by (cases "isConfigFileOk cfg") (simp_all add: publishStatus_def publish_def emit_def status_msgs_def)

lemma digitalWrite_eq [effect_simps]:
  "digitalWrite p v s = s\<lparr>pin_out := (pin_out s)(p := v), out := out s @ [DigitalWrite p v]\<rparr>"
  by (simp add: digitalWrite_def emit_def)

declare emit_def [effect_simps] delayMicroseconds_def [effect_simps] delay_def [effect_simps]
  publish_def [effect_simps]

subsection \<open>The bus observations\<close>

lemma payloads_append [simp]: "payloads (a @ b) = payloads a @ payloads b"
  by (simp add: payloads_def)

lemma stores_append [simp]: "stores (a @ b) = stores a @ stores b"
  by (simp add: stores_def)

lemma framed_append: "framed a \<Longrightarrow> framed b \<Longrightarrow> framed (a @ b)"
  by (simp add: framed_def)

lemma framed_wake_frame: "framed (wake_frame p)"
  by (simp add: framed_def wake_frame_def payloads_def)

lemma payloads_Nil_Cons [simp]:
  "payloads [] = []"
  "payloads (e # es) = (case e of SerialWrite p \<Rightarrow> [p] | _ \<Rightarrow> []) @ payloads es"
  by (simp_all add: payloads_def)

lemma payloads_wake_frame [simp]: "payloads (wake_frame p) = [p]"
  by (simp add: payloads_def wake_frame_def)

lemma framed_non_bus: "\<not> is_bus e \<Longrightarrow> framed [e]"
  by (cases e) (simp_all add: framed_def payloads_def)

lemma status_msgs_quiet [simp]:
  "filter is_bus (status_msgs cfg t v) = []" "payloads (status_msgs cfg t v) = []"
  "stores (status_msgs cfg t v) = []"
  by (auto simp: status_msgs_def payloads_def stores_def)

lemma framed_status_msgs: "framed (status_msgs cfg t v)"
  by (simp add: framed_def)

lemma payloads_bus: "payloads (filter is_bus es) = payloads es"
proof (induction es)
  case (Cons e es)
  then show ?case by (cases e) (simp_all add: payloads_def)
qed (simp add: payloads_def)

text \<open>Whether a log is framed depends on its bus effects only.\<close>

lemma framed_same_bus:
  "filter is_bus a = filter is_bus b \<Longrightarrow> framed a = framed b"
  by (metis framed_def payloads_bus)

end
