(* ===== verification/Capture.thy ===== *)
theory Capture
  imports Platform
begin

text \<open>
  The signal capture layer: the interrupt handlers of \<^verbatim>\<open>ratgdo.cpp\<close>
  (\<open>isrDebounce\<close> and its three wrappers, \<open>isrRPM1\<close>, \<open>isrRPM2\<close>,
  \<open>isrObstruction\<close>) and the variables they share with the main loop.  Each
  handler is a function of the clock value \<open>millis()\<close> returns while it runs, of the
  input levels it reads, and of the state; the function-local statics of the source
  (\<open>lastOpenDoorTime\<close> \<dots> in \<open>isrDebounce\<close>, \<open>lastPulse\<close> in \<open>isrRPM2\<close>)
  are fields of the state record.
\<close>

record capture_state = io_state +
  doorPositionCounter :: int
  rpm1Pulsed :: bool
  obstructionLowCount :: nat
  lastObstructionHigh :: ms
  dryContactDoorOpen :: bool
  dryContactDoorClose :: bool
  dryContactToggleLight :: bool
  lastOpenDoorTime :: ms
  lastCloseDoorTime :: ms
  lastToggleLightTime :: ms
  lastPulse :: ms

section \<open>Dry-contact debounce\<close>

text \<open>
  One channel of \<open>isrDebounce\<close>: on a low level the time of the falling edge is
  saved; on a high level the trigger fires when the edge came more than 500 and less
  than 10000 milliseconds after the saved falling edge.  The result is the new saved
  time and whether the trigger flag is set.
\<close>

definition debounceEdge :: "ms \<Rightarrow> bool \<Rightarrow> ms \<Rightarrow> ms \<times> bool" where
  "debounceEdge currentMillis level lastTime =
     (if level = LOW then (currentMillis, False)
      else (lastTime, currentMillis - lastTime > 500 \<and> currentMillis - lastTime < 10000))"

definition isrDebounce :: "string \<Rightarrow> ms \<Rightarrow> pins \<Rightarrow> 'a capture_state_scheme \<Rightarrow> 'a capture_state_scheme" where
  "isrDebounce type currentMillis rd s =
     (if currentMillis < 2000 then s
      else
        let s1 = (if type = ''openDoor'' then
                    (let (t, fire) = debounceEdge currentMillis (rd TRIGGER_OPEN) (lastOpenDoorTime s)
                     in s\<lparr>lastOpenDoorTime := t, dryContactDoorOpen := (fire \<or> dryContactDoorOpen s)\<rparr>)
                  else s);
            s2 = (if type = ''closeDoor'' then
                    (let (t, fire) = debounceEdge currentMillis (rd TRIGGER_CLOSE) (lastCloseDoorTime s1)
                     in s1\<lparr>lastCloseDoorTime := t, dryContactDoorClose := (fire \<or> dryContactDoorClose s1)\<rparr>)
                  else s1)
        in (if type = ''toggleLight'' then
              (let (t, fire) = debounceEdge currentMillis (rd TRIGGER_LIGHT) (lastToggleLightTime s2)
               in s2\<lparr>lastToggleLightTime := t, dryContactToggleLight := (fire \<or> dryContactToggleLight s2)\<rparr>)
            else s2))"

definition isrDoorOpen :: "ms \<Rightarrow> pins \<Rightarrow> 'a capture_state_scheme \<Rightarrow> 'a capture_state_scheme" where
  "isrDoorOpen now rd s = isrDebounce ''openDoor'' now rd s"

definition isrDoorClose :: "ms \<Rightarrow> pins \<Rightarrow> 'a capture_state_scheme \<Rightarrow> 'a capture_state_scheme" where
  "isrDoorClose now rd s = isrDebounce ''closeDoor'' now rd s"

definition isrLight :: "ms \<Rightarrow> pins \<Rightarrow> 'a capture_state_scheme \<Rightarrow> 'a capture_state_scheme" where
  "isrLight now rd s = isrDebounce ''toggleLight'' now rd s"

section \<open>Encoder\<close>

definition isrRPM1 :: "'a capture_state_scheme \<Rightarrow> 'a capture_state_scheme" where
  "isrRPM1 s = s\<lparr>rpm1Pulsed := True\<rparr>"

text \<open>
  \<open>isrRPM2\<close>: edges closer than 5 ms to the last accepted one are dropped; an edge
  with no \<open>RPM1\<close> pulse since the last accepted one is dropped; otherwise the gate is
  cleared, the time saved, and the counter moves down when \<open>RPM1\<close> reads high and up
  otherwise.
\<close>

definition isrRPM2 :: "ms \<Rightarrow> pins \<Rightarrow> 'a capture_state_scheme \<Rightarrow> 'a capture_state_scheme" where
  "isrRPM2 currentMillis rd s =
     (if currentMillis - lastPulse s < 5 then s
      else if \<not> rpm1Pulsed s then s
      else
        let s1 = s\<lparr>rpm1Pulsed := False, lastPulse := currentMillis\<rparr>
        in if rd INPUT_RPM1 then s1\<lparr>doorPositionCounter := doorPositionCounter s1 - 1\<rparr>
           else s1\<lparr>doorPositionCounter := doorPositionCounter s1 + 1\<rparr>)"

section \<open>Obstruction sampling\<close>

definition isrObstruction :: "ms \<Rightarrow> pins \<Rightarrow> 'a capture_state_scheme \<Rightarrow> 'a capture_state_scheme" where
  "isrObstruction now rd s =
     (if rd INPUT_OBST then s\<lparr>lastObstructionHigh := now\<rparr>
      else s\<lparr>obstructionLowCount := obstructionLowCount s + 1\<rparr>)"

section \<open>Encoder edge sequences\<close>

text \<open>A burst of \<open>RPM2\<close> edges with no \<open>RPM1\<close> edge in between, each with its clock value and input levels.\<close>

definition rpm2_edges :: "(ms \<times> pins) list \<Rightarrow> 'a capture_state_scheme \<Rightarrow> 'a capture_state_scheme" where
  "rpm2_edges es s = foldl (\<lambda>s (t, rd). isrRPM2 t rd s) s es"

text \<open>
  Full encoder cycles: an \<open>RPM1\<close> edge then an \<open>RPM2\<close> edge at each of the given
  times, with the same input levels; \<open>paced\<close> says each \<open>RPM2\<close> edge comes at least
  5 ms after the one before.
\<close>

fun paced :: "ms \<Rightarrow> ms list \<Rightarrow> bool" where
  "paced prev [] = True"
| "paced prev (t # ts) = (\<not> t - prev < 5 \<and> paced t ts)"

definition rpm_cycles :: "pins \<Rightarrow> ms list \<Rightarrow> 'a capture_state_scheme \<Rightarrow> 'a capture_state_scheme" where
  "rpm_cycles rd ts s = foldl (\<lambda>s t. isrRPM2 t rd (isrRPM1 s)) s ts"

section \<open>Lemmas on the handlers\<close>

lemma isrDebounce_openDoor:
  "\<not> currentMillis < 2000 \<Longrightarrow> isrDebounce ''openDoor'' currentMillis rd s =
     (let (t, fire) = debounceEdge currentMillis (rd TRIGGER_OPEN) (lastOpenDoorTime s)
      in s\<lparr>lastOpenDoorTime := t, dryContactDoorOpen := (fire \<or> dryContactDoorOpen s)\<rparr>)"
  by (simp add: isrDebounce_def)

lemma isrDebounce_closeDoor:
  "\<not> currentMillis < 2000 \<Longrightarrow> isrDebounce ''closeDoor'' currentMillis rd s =
     (let (t, fire) = debounceEdge currentMillis (rd TRIGGER_CLOSE) (lastCloseDoorTime s)
      in s\<lparr>lastCloseDoorTime := t, dryContactDoorClose := (fire \<or> dryContactDoorClose s)\<rparr>)"
  by (simp add: isrDebounce_def)

lemma isrDebounce_toggleLight:
  "\<not> currentMillis < 2000 \<Longrightarrow> isrDebounce ''toggleLight'' currentMillis rd s =
     (let (t, fire) = debounceEdge currentMillis (rd TRIGGER_LIGHT) (lastToggleLightTime s)
      in s\<lparr>lastToggleLightTime := t, dryContactToggleLight := (fire \<or> dryContactToggleLight s)\<rparr>)"
  by (simp add: isrDebounce_def)

lemma isrDoorOpen_press:
  assumes "2000 \<le> t0" "2000 \<le> t0 + d" "500 < d" "d < 10000"
    "rd0 TRIGGER_OPEN = LOW" "rd1 TRIGGER_OPEN = HIGH"
  shows "isrDoorOpen (t0 + d) rd1 (isrDoorOpen t0 rd0 s) = s\<lparr>lastOpenDoorTime := t0, dryContactDoorOpen := True\<rparr>"
  using assms by (simp add: isrDoorOpen_def isrDebounce_openDoor not_less debounceEdge_def)

lemma isrRPM2_counter_step:
  "doorPositionCounter (isrRPM2 t rd s) \<in> {doorPositionCounter s - 1, doorPositionCounter s, doorPositionCounter s + 1}"
  by (simp add: isrRPM2_def Let_def)

lemma isrRPM2_gate_closed:
  "\<not> rpm1Pulsed s \<Longrightarrow> isrRPM2 t rd s = s"
  by (simp add: isrRPM2_def)

lemma isrRPM2_gate_after:
  "\<not> rpm1Pulsed (isrRPM2 t rd s) \<or> isrRPM2 t rd s = s"
  by (simp add: isrRPM2_def Let_def)

lemma rpm2_edges_gate_closed:
  "\<not> rpm1Pulsed s \<Longrightarrow> rpm2_edges es s = s"
  by (induction es) (auto simp: rpm2_edges_def isrRPM2_gate_closed)

lemma rpm2_edges_Cons:
  "rpm2_edges ((t, rd) # es) s = rpm2_edges es (isrRPM2 t rd s)"
  by (simp add: rpm2_edges_def)

text \<open>
  The handlers write shared capture variables only: no output, no effect, no field
  of an extension of the record.
\<close>

lemma isrDebounce_frame:
  "pin_out (isrDebounce type t rd s) = pin_out s \<and> out (isrDebounce type t rd s) = out s
   \<and> capture_state.more (isrDebounce type t rd s) = capture_state.more s"
  by (simp add: isrDebounce_def debounceEdge_def Let_def)

lemma isrRPM_frame:
  "pin_out (isrRPM1 s) = pin_out s \<and> out (isrRPM1 s) = out s \<and> capture_state.more (isrRPM1 s) = capture_state.more s"
  "pin_out (isrRPM2 t rd s) = pin_out s \<and> out (isrRPM2 t rd s) = out s
   \<and> capture_state.more (isrRPM2 t rd s) = capture_state.more s"
  by (simp_all add: isrRPM1_def isrRPM2_def Let_def)

lemma isrObstruction_frame:
  "pin_out (isrObstruction t rd s) = pin_out s \<and> out (isrObstruction t rd s) = out s
   \<and> capture_state.more (isrObstruction t rd s) = capture_state.more s"
  by (simp add: isrObstruction_def)

text \<open>Paced encoder cycles move the counter once per cycle, in the direction \<open>RPM1\<close> gives.\<close>

lemma rpm_cycles_counter:
  "paced (lastPulse s) ts \<Longrightarrow>
   doorPositionCounter (rpm_cycles rd ts s) =
     doorPositionCounter s + (if rd INPUT_RPM1 then - int (length ts) else int (length ts))"
proof (induction ts arbitrary: s)
  case Nil
  then show ?case by (simp add: rpm_cycles_def)
next
  case (Cons t ts)
  let ?s' = "isrRPM2 t rd (isrRPM1 s)"
  from Cons.prems have "paced (lastPulse ?s') ts"
    and "doorPositionCounter ?s' = doorPositionCounter s + (if rd INPUT_RPM1 then -1 else 1)"
    by (simp_all add: isrRPM1_def isrRPM2_def Let_def)
  with Cons.IH [of ?s'] show ?case by (simp add: rpm_cycles_def)
qed

lemma rpm_cycles_frame:
  "pin_out (rpm_cycles rd ts s) = pin_out s \<and> out (rpm_cycles rd ts s) = out s
   \<and> capture_state.more (rpm_cycles rd ts s) = capture_state.more s
   \<and> dryContactDoorOpen (rpm_cycles rd ts s) = dryContactDoorOpen s
   \<and> dryContactDoorClose (rpm_cycles rd ts s) = dryContactDoorClose s
   \<and> dryContactToggleLight (rpm_cycles rd ts s) = dryContactToggleLight s"
  by (induction ts arbitrary: s) (simp_all add: rpm_cycles_def isrRPM1_def isrRPM2_def Let_def)

section \<open>Properties of the capture layer\<close>

text \<open>
  C3: a burst of \<open>RPM2\<close> edges with no \<open>RPM1\<close> edge in between moves the position
  counter by at most one pulse, whatever the timing: the gate flag set by \<open>RPM1\<close>
  is consumed by the first accepted edge, so a free-running \<open>RPM2\<close> line cannot
  drift the counter.
\<close>

theorem rpm2_burst_moves_at_most_one:
  "\<bar>doorPositionCounter (rpm2_edges es s) - doorPositionCounter s\<bar> \<le> 1"
proof (induction es arbitrary: s)
  case Nil
  then show ?case by (simp add: rpm2_edges_def)
next
  case (Cons e es)
  obtain t rd where e: "e = (t, rd)" by (cases e)
  let ?s' = "isrRPM2 t rd s"
  have step: "\<bar>doorPositionCounter ?s' - doorPositionCounter s\<bar> \<le> 1"
    using isrRPM2_counter_step [of t rd s] by auto
  show ?case
  proof (cases "?s' = s")
    case True
    with Cons.IH [of s] e show ?thesis by (simp add: rpm2_edges_Cons)
  next
    case False
    then have "rpm2_edges es ?s' = ?s'"
      using isrRPM2_gate_after [of t rd s] rpm2_edges_gate_closed by blast
    with step e show ?thesis by (simp add: rpm2_edges_Cons)
  qed
qed

text \<open>
  C4: an \<open>RPM2\<close> edge less than 5 ms after the last accepted edge changes nothing,
  neither the counter nor the gate flag nor the saved time.
\<close>

theorem isrRPM2_oversampling_guard:
  "currentMillis - lastPulse s < 5 \<Longrightarrow> isrRPM2 currentMillis rd s = s"
  by (simp add: isrRPM2_def)

text \<open>
  C5: outside the start-up guard, a falling edge of the open contact at \<open>t0\<close>
  followed by a rising edge \<open>d\<close> milliseconds later sets the open trigger exactly
  when \<open>500 < d < 10000\<close>; the elapsed time is computed modulo \<open>2^32\<close>, so the
  window is measured correctly across a wrap-around of \<open>millis()\<close>.
\<close>

theorem dry_contact_open_window:
  assumes "2000 \<le> t0" "2000 \<le> t0 + d" "rd0 TRIGGER_OPEN = LOW" "rd1 TRIGGER_OPEN = HIGH"
  shows "dryContactDoorOpen (isrDoorOpen (t0 + d) rd1 (isrDoorOpen t0 rd0 s))
           = (dryContactDoorOpen s \<or> (500 < d \<and> d < 10000))"
  using assms by (auto simp: isrDoorOpen_def isrDebounce_openDoor not_less debounceEdge_def)

text \<open>
  C25: during the first 2000 ms of a \<open>millis()\<close> period no dry-contact edge has
  any effect.
\<close>

theorem isrDebounce_startup_guard:
  "currentMillis < 2000 \<Longrightarrow> isrDebounce type currentMillis rd s = s"
  by (simp add: isrDebounce_def)

end
