(* ===== verification/Obstruction.thy ===== *)
theory Obstruction
  imports Capture
begin

text \<open>
  The obstruction classifier of \<^verbatim>\<open>ratgdo.cpp\<close>: \<open>obstructionLoop\<close>, run on
  every pass of the main loop, classifies the low pulses that \<open>isrObstruction\<close>
  counted in the last window of more than 50 ms, and calls \<open>obstructionCleared\<close>
  or \<open>obstructionDetected\<close>.  The statics \<open>lastMillis\<close> (of
  \<open>obstructionLoop\<close>) and \<open>lastInterruptTime\<close> (of \<open>obstructionDetected\<close>) are
  fields of the state.  The lemmas give the behaviour of a window on each branch
  (clear, obstructed, asleep, noise), the consistency of the status output with
  \<open>doorIsObstructed\<close>, the defect of the 250 ms re-trigger guard, and the edge lost
  when the handler runs between the classification and the restart of the window.
\<close>

record obst_state = capture_state +
  doorIsObstructed :: bool
  lastMillis :: ms
  lastInterruptTime :: ms

definition obstructionDetected :: "config \<Rightarrow> ms \<Rightarrow> 'a obst_state_scheme \<Rightarrow> 'a obst_state_scheme" where
  "obstructionDetected cfg interruptTime s =
     (let s1 = (if interruptTime - lastInterruptTime s > 250 then
                  publishStatus cfg obstructionStatusTopic ''obstructed''
                    (digitalWrite STATUS_OBST HIGH (s\<lparr>doorIsObstructed := True\<rparr>))
                else s)
      in s1\<lparr>lastInterruptTime := interruptTime\<rparr>)"

definition obstructionCleared :: "config \<Rightarrow> 'a obst_state_scheme \<Rightarrow> 'a obst_state_scheme" where
  "obstructionCleared cfg s =
     (if doorIsObstructed s then
        publishStatus cfg obstructionStatusTopic ''clear''
          (digitalWrite STATUS_OBST LOW (s\<lparr>doorIsObstructed := False\<rparr>))
      else s)"

text \<open>
  The body of the 50 ms window in two parts, as the source has them: the
  classification of the pulses counted (the \<open>if\<close> chain), then the restart of the
  window (\<open>lastMillis = currentMillis; obstructionLowCount = 0;\<close>).
\<close>

definition obstructionClassify :: "config \<Rightarrow> ms \<Rightarrow> pins \<Rightarrow> 'a obst_state_scheme \<Rightarrow> 'a obst_state_scheme" where
  "obstructionClassify cfg currentMillis rd s =
     (if obstructionLowCount s \<ge> 3 \<and> obstructionLowCount s \<le> 8 then obstructionCleared cfg s
      else if obstructionLowCount s = 0 then
        (if rd INPUT_OBST \<and> currentMillis - lastObstructionHigh s > 70
         then obstructionDetected cfg currentMillis s
         else s)
      else s)"

definition obstructionWindowEnd :: "ms \<Rightarrow> 'a obst_state_scheme \<Rightarrow> 'a obst_state_scheme" where
  "obstructionWindowEnd currentMillis s = s\<lparr>lastMillis := currentMillis, obstructionLowCount := 0\<rparr>"

definition obstructionLoop :: "config \<Rightarrow> ms \<Rightarrow> pins \<Rightarrow> 'a obst_state_scheme \<Rightarrow> 'a obst_state_scheme" where
  "obstructionLoop cfg currentMillis rd s =
     (if currentMillis - lastMillis s > 50
      then obstructionWindowEnd currentMillis (obstructionClassify cfg currentMillis rd s)
      else s)"

text \<open>
  Successive calls of \<open>obstructionDetected\<close>, each at most 250 ms after the one
  before (the first at most 250 ms after \<open>prev\<close>).
\<close>

fun spaced_calls :: "ms \<Rightarrow> ms list \<Rightarrow> bool" where
  "spaced_calls prev [] = True"
| "spaced_calls prev (t # ts) = (t - prev \<le> 250 \<and> spaced_calls t ts)"

definition detect_calls :: "config \<Rightarrow> ms list \<Rightarrow> 'a obst_state_scheme \<Rightarrow> 'a obst_state_scheme" where
  "detect_calls cfg ts s = foldl (\<lambda>s t. obstructionDetected cfg t s) s ts"

text \<open>
  Successive windows of \<open>obstructionLoop\<close> with the sensor steady (no edge, so no
  handler runs between them); \<open>window_times\<close> says each window ends more than 50
  and at most 250 ms after the previous one, as it does while the loop runs freely.
\<close>

definition obst_windows :: "config \<Rightarrow> pins \<Rightarrow> ms list \<Rightarrow> 'a obst_state_scheme \<Rightarrow> 'a obst_state_scheme" where
  "obst_windows cfg rd ts s = foldl (\<lambda>s t. obstructionLoop cfg t rd s) s ts"

fun window_times :: "ms \<Rightarrow> ms list \<Rightarrow> bool" where
  "window_times prev [] = True"
| "window_times prev (t # ts) = (50 < t - prev \<and> t - prev \<le> 250 \<and> window_times t ts)"

text \<open>The status output follows \<open>doorIsObstructed\<close> through every operation.\<close>

definition obst_pin_ok :: "'a obst_state_scheme \<Rightarrow> bool" where
  "obst_pin_ok s \<longleftrightarrow> pin_out s STATUS_OBST = doorIsObstructed s"

section \<open>Lemmas\<close>

lemma obstructionDetected_fires:
  "interruptTime - lastInterruptTime s > 250 \<Longrightarrow>
   obstructionDetected cfg interruptTime s =
     s\<lparr>doorIsObstructed := True, pin_out := (pin_out s)(STATUS_OBST := HIGH),
       out := out s @ DigitalWrite STATUS_OBST HIGH # status_msgs cfg obstructionStatusTopic ''obstructed'',
       lastInterruptTime := interruptTime\<rparr>"
  by (simp add: obstructionDetected_def effect_simps)

lemma obstructionDetected_suppressed:
  "\<not> interruptTime - lastInterruptTime s > 250 \<Longrightarrow>
   obstructionDetected cfg interruptTime s = s\<lparr>lastInterruptTime := interruptTime\<rparr>"
  by (simp add: obstructionDetected_def)

lemma obstructionCleared_obstructed:
  "doorIsObstructed s \<Longrightarrow>
   obstructionCleared cfg s =
     s\<lparr>doorIsObstructed := False, pin_out := (pin_out s)(STATUS_OBST := LOW),
       out := out s @ DigitalWrite STATUS_OBST LOW # status_msgs cfg obstructionStatusTopic ''clear''\<rparr>"
  by (simp add: obstructionCleared_def effect_simps)

lemma obstructionCleared_clear:
  "\<not> doorIsObstructed s \<Longrightarrow> obstructionCleared cfg s = s"
  by (simp add: obstructionCleared_def)

lemma obstructionLoop_window:
  "currentMillis - lastMillis s > 50 \<Longrightarrow>
   obstructionLoop cfg currentMillis rd s =
     (if obstructionLowCount s \<ge> 3 \<and> obstructionLowCount s \<le> 8 then obstructionCleared cfg s
      else if obstructionLowCount s = 0 \<and> rd INPUT_OBST \<and> currentMillis - lastObstructionHigh s > 70
      then obstructionDetected cfg currentMillis s
      else s)\<lparr>lastMillis := currentMillis, obstructionLowCount := 0\<rparr>"
  by (simp add: obstructionLoop_def obstructionClassify_def obstructionWindowEnd_def)

lemma obstructionLoop_no_window:
  "\<not> currentMillis - lastMillis s > 50 \<Longrightarrow> obstructionLoop cfg currentMillis rd s = s"
  by (simp add: obstructionLoop_def)

lemmas obstruction_branches =
  obstructionDetected_fires obstructionDetected_suppressed
  obstructionCleared_obstructed obstructionCleared_clear

lemma obstructionDetected_pin_ok:
  "obst_pin_ok s \<Longrightarrow> obst_pin_ok (obstructionDetected cfg t s)"
  by (cases "t - lastInterruptTime s > 250") (simp_all add: obst_pin_ok_def obstruction_branches)

lemma obstructionCleared_pin_ok:
  "obst_pin_ok s \<Longrightarrow> obst_pin_ok (obstructionCleared cfg s)"
  by (cases "doorIsObstructed s") (simp_all add: obst_pin_ok_def obstruction_branches)

lemma obstructionLoop_pin_ok:
  "obst_pin_ok s \<Longrightarrow> obst_pin_ok (obstructionLoop cfg t rd s)"
  using obstructionDetected_pin_ok [of s cfg t] obstructionCleared_pin_ok [of s cfg]
  by (auto simp: obstructionLoop_def obstructionClassify_def obstructionWindowEnd_def obst_pin_ok_def)

text \<open>What a window leaves alone: the other outputs, the bus, every field of an extension.\<close>

lemma obstructionLoop_frame:
  "pin_out (obstructionLoop cfg t rd s) STATUS_DOOR = pin_out s STATUS_DOOR
   \<and> filter is_bus (out (obstructionLoop cfg t rd s)) = filter is_bus (out s)
   \<and> obst_state.more (obstructionLoop cfg t rd s) = obst_state.more s"
  by (simp add: obstructionLoop_def obstructionClassify_def obstructionWindowEnd_def obstructionDetected_def
      obstructionCleared_def effect_simps Let_def)

lemma obstructionLoop_capture:
  "doorPositionCounter (obstructionLoop cfg t rd s) = doorPositionCounter s
   \<and> dryContactDoorOpen (obstructionLoop cfg t rd s) = dryContactDoorOpen s
   \<and> dryContactDoorClose (obstructionLoop cfg t rd s) = dryContactDoorClose s
   \<and> dryContactToggleLight (obstructionLoop cfg t rd s) = dryContactToggleLight s
   \<and> (\<exists>es. out (obstructionLoop cfg t rd s) = out s @ es)"
  by (simp add: obstructionLoop_def obstructionClassify_def obstructionWindowEnd_def
      obstructionDetected_def obstructionCleared_def effect_simps Let_def)

lemma detect_calls_Cons:
  "detect_calls cfg (t # ts) s = detect_calls cfg ts (obstructionDetected cfg t s)"
  by (simp add: detect_calls_def)

lemma obst_windows_Cons:
  "obst_windows cfg rd (t # ts) s = obst_windows cfg rd ts (obstructionLoop cfg t rd s)"
  by (simp add: obst_windows_def)

lemma obst_windows_persisting:
  assumes "doorIsObstructed s" "obstructionLowCount s = 0" "rd INPUT_OBST = HIGH"
    "lastInterruptTime s = lastMillis s" "window_times (lastMillis s) ts"
    "\<forall>t \<in> set ts. 70 < t - lastObstructionHigh s"
  shows "obst_windows cfg rd ts s = s\<lparr>lastMillis := last (lastMillis s # ts), lastInterruptTime := last (lastMillis s # ts)\<rparr>"
  using assms
proof (induction ts arbitrary: s)
  case Nil
  then show ?case by (simp add: obst_windows_def)
next
  case (Cons t ts)
  let ?s' = "s\<lparr>lastMillis := t, lastInterruptTime := t\<rparr>"
  from Cons.prems have "\<not> 250 < t - lastInterruptTime s" by (simp add: not_less)
  with Cons.prems have "obstructionLoop cfg t rd s = ?s'"
    by (simp add: obstructionLoop_window obstructionDetected_suppressed)
  moreover have "obst_windows cfg rd ts ?s' =
      ?s'\<lparr>lastMillis := last (lastMillis ?s' # ts), lastInterruptTime := last (lastMillis ?s' # ts)\<rparr>"
    by (rule Cons.IH) (use Cons.prems in simp_all)
  ultimately show ?case by (simp add: obst_windows_Cons)
qed

section \<open>Properties of the classifier\<close>

text \<open>
  C6: a window of more than 50 ms with 3 to 8 low pulses, while obstructed, clears
  the obstruction: the status output goes low, one \<open>clear\<close> status is published
  on each topic, and the window restarts with the pulse count at zero.
\<close>

theorem obstructionLoop_clears:
  assumes "currentMillis - lastMillis s > 50" "3 \<le> obstructionLowCount s"
    "obstructionLowCount s \<le> 8" "doorIsObstructed s"
  shows "obstructionLoop cfg currentMillis rd s =
     s\<lparr>doorIsObstructed := False, pin_out := (pin_out s)(STATUS_OBST := LOW),
       out := out s @ DigitalWrite STATUS_OBST LOW # status_msgs cfg obstructionStatusTopic ''clear'',
       lastMillis := currentMillis, obstructionLowCount := 0\<rparr>"
  using assms by (simp add: obstructionLoop_window obstructionCleared_obstructed)

text \<open>
  C7: a window with no low pulse, the line high, the last high edge more than 70 ms
  ago and the last detection call more than 250 ms ago reports the obstruction:
  output high, one \<open>obstructed\<close> status per topic.
\<close>

theorem obstructionLoop_detects:
  assumes "currentMillis - lastMillis s > 50" "obstructionLowCount s = 0" "rd INPUT_OBST = HIGH"
    "currentMillis - lastObstructionHigh s > 70" "currentMillis - lastInterruptTime s > 250"
  shows "obstructionLoop cfg currentMillis rd s =
     s\<lparr>doorIsObstructed := True, pin_out := (pin_out s)(STATUS_OBST := HIGH),
       out := out s @ DigitalWrite STATUS_OBST HIGH # status_msgs cfg obstructionStatusTopic ''obstructed'',
       lastInterruptTime := currentMillis, lastMillis := currentMillis, obstructionLowCount := 0\<rparr>"
  using assms by (simp add: obstructionLoop_window obstructionDetected_fires)

text \<open>
  C8: the 250 ms guard of \<open>obstructionDetected\<close> restarts on every call, reported
  or not.  So detection calls that each follow the previous one within 250 ms are all
  suppressed: the state is unchanged but for the saved time, and nothing is published.
  Since a persisting obstruction calls it every window of about 50 ms, an obstruction
  that reappears within 250 ms of the previous call is never reported while it lasts.
\<close>

theorem obstruction_retrigger_suppressed:
  "spaced_calls (lastInterruptTime s) ts \<Longrightarrow>
   detect_calls cfg ts s = s\<lparr>lastInterruptTime := last (lastInterruptTime s # ts)\<rparr>"
proof (induction ts arbitrary: s)
  case Nil
  then show ?case by (simp add: detect_calls_def)
next
  case (Cons t ts)
  then have "\<not> t - lastInterruptTime s > 250" and "spaced_calls t ts" by auto
  then show ?case
    using Cons.IH [of "s\<lparr>lastInterruptTime := t\<rparr>"]
    by (simp add: detect_calls_Cons obstructionDetected_suppressed)
qed

text \<open>
  C23: a window with no pulse and the line low (the sensor asleep, or unplugged)
  changes nothing but the window bookkeeping.
\<close>

theorem obstructionLoop_asleep:
  assumes "currentMillis - lastMillis s > 50" "obstructionLowCount s = 0" "rd INPUT_OBST = LOW"
  shows "obstructionLoop cfg currentMillis rd s = s\<lparr>lastMillis := currentMillis, obstructionLowCount := 0\<rparr>"
  using assms by (simp add: obstructionLoop_window)

text \<open>
  C24: a window with 1, 2 or more than 8 low pulses is noise: nothing but the window
  bookkeeping changes.
\<close>

theorem obstructionLoop_noise:
  assumes "currentMillis - lastMillis s > 50" "obstructionLowCount s \<in> {1, 2} \<or> obstructionLowCount s > 8"
  shows "obstructionLoop cfg currentMillis rd s = s\<lparr>lastMillis := currentMillis, obstructionLowCount := 0\<rparr>"
  using assms by (auto simp add: obstructionLoop_window)

text \<open>
  C32: the reset of the pulse count races with \<open>isrObstruction\<close>.  A low edge
  that the handler counts after the classification of a window and before the reset
  leaves no trace: the pass ends exactly as if the edge had never happened, whereas
  the same edge right after the reset starts the next window's count at one.
\<close>

theorem obstruction_edge_lost:
  assumes "currentMillis - lastMillis s > 50" "rd' INPUT_OBST = LOW"
  shows "obstructionWindowEnd currentMillis (isrObstruction t rd' (obstructionClassify cfg currentMillis rd s))
           = obstructionLoop cfg currentMillis rd s
    \<and> obstructionLowCount (isrObstruction t rd' (obstructionLoop cfg currentMillis rd s)) = 1"
  using assms by (simp add: obstructionLoop_def obstructionWindowEnd_def isrObstruction_def)

text \<open>
  C36: a persisting obstruction is reported once, not once per window.  A sensor
  that stays high after its last high edge (more than 70 ms before each window)
  is reported by the first window, when the last detection call lies more than
  250 ms back: the output goes high and one \<open>obstructed\<close> status is published per
  topic; the later windows, each at most 250 ms after the previous one, add nothing
  to the log, and the obstruction stays set.
\<close>

theorem obstruction_reported_once:
  assumes "\<not> doorIsObstructed s" "obstructionLowCount s = 0" "rd INPUT_OBST = HIGH"
    "50 < t - lastMillis s" "250 < t - lastInterruptTime s" "window_times t ts"
    "\<forall>t' \<in> set (t # ts). 70 < t' - lastObstructionHigh s"
  shows "out (obst_windows cfg rd (t # ts) s)
           = out s @ DigitalWrite STATUS_OBST HIGH # status_msgs cfg obstructionStatusTopic ''obstructed''
    \<and> doorIsObstructed (obst_windows cfg rd (t # ts) s)"
proof -
  let ?s1 = "obstructionLoop cfg t rd s"
  have s1: "?s1 = s\<lparr>doorIsObstructed := True, pin_out := (pin_out s)(STATUS_OBST := HIGH),
       out := out s @ DigitalWrite STATUS_OBST HIGH # status_msgs cfg obstructionStatusTopic ''obstructed'',
       lastInterruptTime := t, lastMillis := t, obstructionLowCount := 0\<rparr>"
    using assms by (simp add: obstructionLoop_window obstructionDetected_fires)
  have "obst_windows cfg rd ts ?s1 = ?s1\<lparr>lastMillis := last (lastMillis ?s1 # ts),
      lastInterruptTime := last (lastMillis ?s1 # ts)\<rparr>"
    using assms s1 by (intro obst_windows_persisting) simp_all
  then show ?thesis using s1 by (simp add: obst_windows_Cons)
qed
text \<open>
  C37: the re-announcement.  \<open>obstructionDetected\<close> does not test
  \<open>doorIsObstructed\<close>: on a door already obstructed, a window that finds the sensor
  steady high more than 250 ms after the previous detection call publishes
  \<open>obstructed\<close> again and writes the output again, though the state does not change.
\<close>

theorem obstruction_reannounced:
  assumes "doorIsObstructed s" "obstructionLowCount s = 0" "rd INPUT_OBST = HIGH"
    "50 < t - lastMillis s" "250 < t - lastInterruptTime s" "70 < t - lastObstructionHigh s"
  shows "out (obstructionLoop cfg t rd s)
           = out s @ DigitalWrite STATUS_OBST HIGH # status_msgs cfg obstructionStatusTopic ''obstructed''
    \<and> doorIsObstructed (obstructionLoop cfg t rd s) = doorIsObstructed s"
  using assms by (simp add: obstructionLoop_window obstructionDetected_fires)

end
