(* ===== verification/DoorState.thy ===== *)
theory DoorState
  imports Obstruction
begin

text \<open>
  The door motion state machine of \<^verbatim>\<open>ratgdo.cpp\<close>, \<open>doorStateLoop\<close>.  The
  source keeps the door state as a \<open>String\<close> that only ever holds one of six
  literals; it is the datatype \<open>door_state\<close> here, with \<open>Unknown\<close> for the initial
  value of the global, which none of the comparisons matches.  The statics of
  \<open>doorStateLoop\<close> are fields of the state.  The function is defined as the
  composition of its four sections in source order: the reed switch, the encoder
  sample, the direction detection with its 5-pulse hysteresis and the stop detection
  after 250 ms without pulses, followed by the update of
  \<open>lastDoorPositionCounter\<close>.  \<open>door_passes\<close> runs it over a sequence of
  passes, for the properties of traces.
\<close>

datatype door_state = Reed_open | Reed_closed | Opening | Closing | Open | Closed | Unknown

primrec door_state_str :: "door_state \<Rightarrow> string" where
  "door_state_str Reed_open = ''reed_open''"
| "door_state_str Reed_closed = ''reed_closed''"
| "door_state_str Opening = ''opening''"
| "door_state_str Closing = ''closing''"
| "door_state_str Open = ''open''"
| "door_state_str Closed = ''closed''"
| "door_state_str Unknown = ''''"

record door_rec = obst_state +
  doorState :: door_state
  rotaryEncoderDetected :: bool
  lastDoorPositionCounter :: int
  lastDirectionChangeCounter :: int
  lastCounterMillis :: ms

section \<open>The sections of doorStateLoop\<close>

definition reedSwitchStep :: "config \<Rightarrow> pins \<Rightarrow> 'a door_rec_scheme \<Rightarrow> 'a door_rec_scheme" where
  "reedSwitchStep cfg rd s =
     (if \<not> rotaryEncoderDetected s then
        (if rd INPUT_RPM1 = LOW then
           (if doorState s \<noteq> Reed_closed then
              digitalWrite STATUS_DOOR HIGH
                (publishStatus cfg doorStatusTopic ''reed_closed'' (s\<lparr>doorState := Reed_closed\<rparr>))
            else s)
         else if doorState s \<noteq> Reed_open then
           digitalWrite STATUS_DOOR LOW
             (publishStatus cfg doorStatusTopic ''reed_open'' (s\<lparr>doorState := Reed_open\<rparr>))
         else s)
      else s)"

definition encoderSample :: "ms \<Rightarrow> 'a door_rec_scheme \<Rightarrow> 'a door_rec_scheme" where
  "encoderSample now s =
     (if doorPositionCounter s \<noteq> lastDoorPositionCounter s
      then s\<lparr>rotaryEncoderDetected := True, lastCounterMillis := now\<rparr>
      else s)"

definition directionDetect :: "config \<Rightarrow> 'a door_rec_scheme \<Rightarrow> 'a door_rec_scheme" where
  "directionDetect cfg s =
     (let s1 = (if doorPositionCounter s - lastDirectionChangeCounter s > 5 then
                  (if doorState s \<noteq> Opening then publishStatus cfg doorStatusTopic ''opening'' s else s)
                    \<lparr>lastDirectionChangeCounter := doorPositionCounter s, doorState := Opening\<rparr>
                else s)
      in if lastDirectionChangeCounter s1 - doorPositionCounter s1 > 5 then
           (if doorState s1 \<noteq> Closing then publishStatus cfg doorStatusTopic ''closing'' s1 else s1)
             \<lparr>lastDirectionChangeCounter := doorPositionCounter s1, doorState := Closing\<rparr>
         else s1)"

definition stopDetect :: "config \<Rightarrow> ms \<Rightarrow> 'a door_rec_scheme \<Rightarrow> 'a door_rec_scheme" where
  "stopDetect cfg now s =
     (if now - lastCounterMillis s > 250 then
        let s1 = (if doorState s = Closing then
                    digitalWrite STATUS_DOOR LOW
                      (publishStatus cfg doorStatusTopic (door_state_str Closed) (s\<lparr>doorState := Closed\<rparr>))
                  else s)
        in if doorState s1 = Opening then
             digitalWrite STATUS_DOOR HIGH
               (publishStatus cfg doorStatusTopic (door_state_str Open) (s1\<lparr>doorState := Open\<rparr>))
           else s1
      else s)"

definition doorStateLoop :: "config \<Rightarrow> ms \<Rightarrow> pins \<Rightarrow> 'a door_rec_scheme \<Rightarrow> 'a door_rec_scheme" where
  "doorStateLoop cfg now rd s =
     (let s1 = stopDetect cfg now (directionDetect cfg (encoderSample now (reedSwitchStep cfg rd s)))
      in s1\<lparr>lastDoorPositionCounter := doorPositionCounter s1\<rparr>)"

text \<open>
  The door status output agrees with the classified state: high for
  \<open>reed_closed\<close> and \<open>open\<close>, low for \<open>reed_open\<close> and \<open>closed\<close> (the
  moving states leave it as it was).
\<close>

definition door_pin_ok :: "'a door_rec_scheme \<Rightarrow> bool" where
  "door_pin_ok s \<longleftrightarrow>
     ((doorState s = Reed_closed \<or> doorState s = Open) \<longrightarrow> pin_out s STATUS_DOOR = HIGH)
   \<and> ((doorState s = Reed_open \<or> doorState s = Closed) \<longrightarrow> pin_out s STATUS_DOOR = LOW)"

text \<open>
  Successive passes of \<open>doorStateLoop\<close>, each with the clock value of its pass and
  the counter value the encoder interrupts left before it: the handlers write only
  \<open>doorPositionCounter\<close> among the fields the loop reads.
\<close>

definition door_passes :: "config \<Rightarrow> pins \<Rightarrow> (ms \<times> int) list \<Rightarrow> 'a door_rec_scheme \<Rightarrow> 'a door_rec_scheme" where
  "door_passes cfg rd ps s = foldl (\<lambda>s (t, c). doorStateLoop cfg t rd (s\<lparr>doorPositionCounter := c\<rparr>)) s ps"

section \<open>Lemmas on the sections\<close>

lemma reedSwitchStep_encoder:
  "rotaryEncoderDetected s \<Longrightarrow> reedSwitchStep cfg rd s = s"
  by (simp add: reedSwitchStep_def)

lemma encoderSample_moved:
  "doorPositionCounter s \<noteq> lastDoorPositionCounter s \<Longrightarrow>
   encoderSample now s = s\<lparr>rotaryEncoderDetected := True, lastCounterMillis := now\<rparr>"
  by (simp add: encoderSample_def)

lemma encoderSample_still:
  "doorPositionCounter s = lastDoorPositionCounter s \<Longrightarrow> encoderSample now s = s"
  by (simp add: encoderSample_def)

lemma directionDetect_opening:
  "doorPositionCounter s - lastDirectionChangeCounter s > 5 \<Longrightarrow>
   directionDetect cfg s =
     s\<lparr>out := out s @ (if doorState s = Opening then [] else status_msgs cfg doorStatusTopic ''opening''),
       lastDirectionChangeCounter := doorPositionCounter s, doorState := Opening\<rparr>"
  by (simp add: directionDetect_def effect_simps)

lemma directionDetect_closing:
  "lastDirectionChangeCounter s - doorPositionCounter s > 5 \<Longrightarrow>
   directionDetect cfg s =
     s\<lparr>out := out s @ (if doorState s = Closing then [] else status_msgs cfg doorStatusTopic ''closing''),
       lastDirectionChangeCounter := doorPositionCounter s, doorState := Closing\<rparr>"
  by (simp add: directionDetect_def effect_simps)

lemma directionDetect_within:
  "\<bar>doorPositionCounter s - lastDirectionChangeCounter s\<bar> \<le> 5 \<Longrightarrow> directionDetect cfg s = s"
  by (simp add: directionDetect_def)

lemma stopDetect_moving:
  "\<not> now - lastCounterMillis s > 250 \<Longrightarrow> stopDetect cfg now s = s"
  by (simp add: stopDetect_def)

lemma stopDetect_closing:
  "now - lastCounterMillis s > 250 \<Longrightarrow> doorState s = Closing \<Longrightarrow>
   stopDetect cfg now s =
     s\<lparr>doorState := Closed, pin_out := (pin_out s)(STATUS_DOOR := LOW),
       out := out s @ status_msgs cfg doorStatusTopic ''closed'' @ [DigitalWrite STATUS_DOOR LOW]\<rparr>"
  by (simp add: stopDetect_def effect_simps)

lemma stopDetect_opening:
  "now - lastCounterMillis s > 250 \<Longrightarrow> doorState s = Opening \<Longrightarrow>
   stopDetect cfg now s =
     s\<lparr>doorState := Open, pin_out := (pin_out s)(STATUS_DOOR := HIGH),
       out := out s @ status_msgs cfg doorStatusTopic ''open'' @ [DigitalWrite STATUS_DOOR HIGH]\<rparr>"
  by (simp add: stopDetect_def effect_simps)

lemma stopDetect_rest:
  "doorState s \<noteq> Closing \<Longrightarrow> doorState s \<noteq> Opening \<Longrightarrow> stopDetect cfg now s = s"
  by (simp add: stopDetect_def)

lemmas door_sections =
  reedSwitchStep_encoder encoderSample_moved encoderSample_still
  directionDetect_opening directionDetect_closing directionDetect_within
  stopDetect_moving stopDetect_closing stopDetect_opening stopDetect_rest

text \<open>Fields the sections never write.\<close>

lemma door_sections_counter [simp]:
  "doorPositionCounter (reedSwitchStep cfg rd s) = doorPositionCounter s"
  "doorPositionCounter (encoderSample now s) = doorPositionCounter s"
  "doorPositionCounter (directionDetect cfg s) = doorPositionCounter s"
  "doorPositionCounter (stopDetect cfg now s) = doorPositionCounter s"
  by (simp_all add: reedSwitchStep_def encoderSample_def directionDetect_def stopDetect_def
      effect_simps Let_def)

lemma door_sections_encoder:
  "rotaryEncoderDetected (reedSwitchStep cfg rd s) = rotaryEncoderDetected s"
  "rotaryEncoderDetected s \<Longrightarrow> rotaryEncoderDetected (encoderSample now s)"
  "rotaryEncoderDetected (directionDetect cfg s) = rotaryEncoderDetected s"
  "rotaryEncoderDetected (stopDetect cfg now s) = rotaryEncoderDetected s"
  by (simp_all add: reedSwitchStep_def encoderSample_def directionDetect_def stopDetect_def
      effect_simps Let_def)

lemma door_sections_flags [simp]:
  "dryContactDoorOpen (reedSwitchStep cfg rd s) = dryContactDoorOpen s"
  "dryContactDoorClose (reedSwitchStep cfg rd s) = dryContactDoorClose s"
  "dryContactToggleLight (reedSwitchStep cfg rd s) = dryContactToggleLight s"
  "dryContactDoorOpen (encoderSample now s) = dryContactDoorOpen s"
  "dryContactDoorClose (encoderSample now s) = dryContactDoorClose s"
  "dryContactToggleLight (encoderSample now s) = dryContactToggleLight s"
  "dryContactDoorOpen (directionDetect cfg s) = dryContactDoorOpen s"
  "dryContactDoorClose (directionDetect cfg s) = dryContactDoorClose s"
  "dryContactToggleLight (directionDetect cfg s) = dryContactToggleLight s"
  "dryContactDoorOpen (stopDetect cfg now s) = dryContactDoorOpen s"
  "dryContactDoorClose (stopDetect cfg now s) = dryContactDoorClose s"
  "dryContactToggleLight (stopDetect cfg now s) = dryContactToggleLight s"
  by (simp_all add: reedSwitchStep_def encoderSample_def directionDetect_def stopDetect_def
      effect_simps Let_def)

lemma reedSwitchStep_closed:
  "\<not> rotaryEncoderDetected s \<Longrightarrow> rd INPUT_RPM1 = LOW \<Longrightarrow> doorState s \<noteq> Reed_closed \<Longrightarrow>
   reedSwitchStep cfg rd s =
     s\<lparr>doorState := Reed_closed, pin_out := (pin_out s)(STATUS_DOOR := HIGH),
       out := out s @ status_msgs cfg doorStatusTopic ''reed_closed'' @ [DigitalWrite STATUS_DOOR HIGH]\<rparr>"
  by (simp add: reedSwitchStep_def effect_simps)

lemma reedSwitchStep_open:
  "\<not> rotaryEncoderDetected s \<Longrightarrow> rd INPUT_RPM1 = HIGH \<Longrightarrow> doorState s \<noteq> Reed_open \<Longrightarrow>
   reedSwitchStep cfg rd s =
     s\<lparr>doorState := Reed_open, pin_out := (pin_out s)(STATUS_DOOR := LOW),
       out := out s @ status_msgs cfg doorStatusTopic ''reed_open'' @ [DigitalWrite STATUS_DOOR LOW]\<rparr>"
  by (simp add: reedSwitchStep_def effect_simps)

lemma directionDetect_bound:
  "\<bar>lastDirectionChangeCounter (directionDetect cfg s) - doorPositionCounter s\<bar> \<le> 5"
  by (auto simp add: directionDetect_def effect_simps Let_def abs_le_iff)

lemma stopDetect_baseline [simp]:
  "lastDirectionChangeCounter (stopDetect cfg now s) = lastDirectionChangeCounter s"
  by (simp add: stopDetect_def effect_simps Let_def)

text \<open>The sections keep the status output consistent.\<close>

lemma reedSwitchStep_pin_ok: "door_pin_ok s \<Longrightarrow> door_pin_ok (reedSwitchStep cfg rd s)"
  by (auto simp: reedSwitchStep_def door_pin_ok_def effect_simps)

lemma encoderSample_pin_ok: "door_pin_ok s \<Longrightarrow> door_pin_ok (encoderSample t s)"
  by (simp add: encoderSample_def door_pin_ok_def)

lemma directionDetect_pin_ok: "door_pin_ok s \<Longrightarrow> door_pin_ok (directionDetect cfg s)"
  by (auto simp: directionDetect_def door_pin_ok_def effect_simps Let_def)

lemma stopDetect_pin_ok: "door_pin_ok s \<Longrightarrow> door_pin_ok (stopDetect cfg t s)"
  by (auto simp: stopDetect_def door_pin_ok_def effect_simps Let_def)

lemma doorStateLoop_pin_ok: "door_pin_ok s \<Longrightarrow> door_pin_ok (doorStateLoop cfg t rd s)"
proof -
  assume "door_pin_ok s"
  then have "door_pin_ok (stopDetect cfg t (directionDetect cfg (encoderSample t (reedSwitchStep cfg rd s))))"
    by (intro stopDetect_pin_ok directionDetect_pin_ok encoderSample_pin_ok reedSwitchStep_pin_ok)
  then show ?thesis by (simp add: doorStateLoop_def door_pin_ok_def Let_def)
qed

text \<open>
  What the sections leave alone: the obstruction state and output, the opener bus,
  and every field of an extension of the record.
\<close>

lemma reedSwitchStep_frame:
  "doorIsObstructed (reedSwitchStep cfg rd s) = doorIsObstructed s
   \<and> pin_out (reedSwitchStep cfg rd s) STATUS_OBST = pin_out s STATUS_OBST
   \<and> filter is_bus (out (reedSwitchStep cfg rd s)) = filter is_bus (out s)
   \<and> door_rec.more (reedSwitchStep cfg rd s) = door_rec.more s"
  by (simp add: reedSwitchStep_def effect_simps)

lemma encoderSample_frame:
  "doorIsObstructed (encoderSample t s) = doorIsObstructed s
   \<and> pin_out (encoderSample t s) = pin_out s \<and> out (encoderSample t s) = out s
   \<and> door_rec.more (encoderSample t s) = door_rec.more s"
  by (simp add: encoderSample_def)

lemma directionDetect_frame:
  "doorIsObstructed (directionDetect cfg s) = doorIsObstructed s
   \<and> pin_out (directionDetect cfg s) STATUS_OBST = pin_out s STATUS_OBST
   \<and> filter is_bus (out (directionDetect cfg s)) = filter is_bus (out s)
   \<and> door_rec.more (directionDetect cfg s) = door_rec.more s"
  by (simp add: directionDetect_def effect_simps Let_def)

lemma stopDetect_frame:
  "doorIsObstructed (stopDetect cfg t s) = doorIsObstructed s
   \<and> pin_out (stopDetect cfg t s) STATUS_OBST = pin_out s STATUS_OBST
   \<and> filter is_bus (out (stopDetect cfg t s)) = filter is_bus (out s)
   \<and> door_rec.more (stopDetect cfg t s) = door_rec.more s"
  by (simp add: stopDetect_def effect_simps Let_def)

lemma doorStateLoop_frame:
  "doorIsObstructed (doorStateLoop cfg t rd s) = doorIsObstructed s
   \<and> pin_out (doorStateLoop cfg t rd s) STATUS_OBST = pin_out s STATUS_OBST
   \<and> filter is_bus (out (doorStateLoop cfg t rd s)) = filter is_bus (out s)
   \<and> door_rec.more (doorStateLoop cfg t rd s) = door_rec.more s"
  by (simp add: doorStateLoop_def Let_def reedSwitchStep_frame encoderSample_frame
      directionDetect_frame stopDetect_frame)

text \<open>One pass over a counter that rose since the last sample.\<close>

lemma door_passes_Cons:
  "door_passes cfg rd ((t, c) # ps) s = door_passes cfg rd ps (doorStateLoop cfg t rd (s\<lparr>doorPositionCounter := c\<rparr>))"
  by (simp add: door_passes_def)

lemma doorStateLoop_advance:
  assumes "rotaryEncoderDetected s" "lastDoorPositionCounter s < c"
    "lastDirectionChangeCounter s - lastDoorPositionCounter s \<le> 5"
  shows "doorStateLoop cfg t rd (s\<lparr>doorPositionCounter := c\<rparr>) =
    (if c - lastDirectionChangeCounter s > 5 then
       s\<lparr>doorPositionCounter := c,
         out := out s @ (if doorState s = Opening then [] else status_msgs cfg doorStatusTopic ''opening''),
         doorState := Opening, lastDirectionChangeCounter := c, lastCounterMillis := t,
         lastDoorPositionCounter := c\<rparr>
     else s\<lparr>doorPositionCounter := c, lastCounterMillis := t, lastDoorPositionCounter := c\<rparr>)"
proof (cases "c - lastDirectionChangeCounter s > 5")
  case True
  with assms show ?thesis by (simp add: doorStateLoop_def door_sections)
next
  case False
  with assms have "\<bar>c - lastDirectionChangeCounter s\<bar> \<le> 5" by auto
  with False assms show ?thesis by (simp add: doorStateLoop_def door_sections)
qed

lemma door_passes_opening:
  assumes "rotaryEncoderDetected s" "doorState s = Opening"
    "lastDirectionChangeCounter s \<le> lastDoorPositionCounter s"
    "sorted_wrt (<) (lastDoorPositionCounter s # map snd ps)"
  shows "doorState (door_passes cfg rd ps s) = Opening \<and> out (door_passes cfg rd ps s) = out s"
  using assms
proof (induction ps arbitrary: s)
  case Nil
  then show ?case by (simp add: door_passes_def)
next
  case (Cons p ps)
  obtain t c where p: "p = (t, c)" by fastforce
  let ?s' = "doorStateLoop cfg t rd (s\<lparr>doorPositionCounter := c\<rparr>)"
  from Cons.prems p have "?s' = (if c - lastDirectionChangeCounter s > 5 then
       s\<lparr>doorPositionCounter := c, doorState := Opening, lastDirectionChangeCounter := c,
         lastCounterMillis := t, lastDoorPositionCounter := c\<rparr>
     else s\<lparr>doorPositionCounter := c, lastCounterMillis := t, lastDoorPositionCounter := c\<rparr>)"
    by (simp add: doorStateLoop_advance)
  with Cons.prems p have "rotaryEncoderDetected ?s'" "doorState ?s' = Opening"
    "lastDirectionChangeCounter ?s' \<le> lastDoorPositionCounter ?s'"
    "sorted_wrt (<) (lastDoorPositionCounter ?s' # map snd ps)" "out ?s' = out s"
    by auto
  with Cons.IH [of ?s'] p show ?case by (simp add: door_passes_Cons)
qed
lemma doorStateLoop_flags:
  "dryContactDoorOpen (doorStateLoop cfg t rd s) = dryContactDoorOpen s
   \<and> dryContactDoorClose (doorStateLoop cfg t rd s) = dryContactDoorClose s
   \<and> dryContactToggleLight (doorStateLoop cfg t rd s) = dryContactToggleLight s"
  by (simp add: doorStateLoop_def Let_def)

lemma doorStateLoop_still:
  assumes "rotaryEncoderDetected s" "doorPositionCounter s = lastDoorPositionCounter s"
    "\<bar>lastDirectionChangeCounter s - lastDoorPositionCounter s\<bar> \<le> 5"
  shows "doorState (doorStateLoop cfg now rd s) =
    (if now - lastCounterMillis s > 250 then (case doorState s of Opening \<Rightarrow> Open | Closing \<Rightarrow> Closed | d \<Rightarrow> d)
     else doorState s)"
proof -
  have "\<bar>doorPositionCounter s - lastDirectionChangeCounter s\<bar> \<le> 5"
    using assms(2,3) by (simp add: abs_minus_commute)
  with assms(1,2) show ?thesis
    by (cases "doorState s"; cases "now - lastCounterMillis s > 250") (simp_all add: doorStateLoop_def door_sections)
qed

section \<open>Properties of doorStateLoop\<close>

text \<open>
  C1: once the encoder drives the state, a pass that sees the counter more than 5
  pulses above the last direction-change baseline sets the state to \<open>opening\<close>,
  moves the baseline to the counter, restarts the stop timer, and publishes
  \<open>opening\<close> exactly when the state was not \<open>opening\<close> already.
\<close>

theorem doorStateLoop_opening:
  assumes "rotaryEncoderDetected s" "doorPositionCounter s \<noteq> lastDoorPositionCounter s"
    "doorPositionCounter s - lastDirectionChangeCounter s > 5"
  shows "doorStateLoop cfg now rd s =
     s\<lparr>out := out s @ (if doorState s = Opening then [] else status_msgs cfg doorStatusTopic ''opening''),
       doorState := Opening, rotaryEncoderDetected := True, lastCounterMillis := now,
       lastDirectionChangeCounter := doorPositionCounter s,
       lastDoorPositionCounter := doorPositionCounter s\<rparr>"
  using assms by (simp add: doorStateLoop_def door_sections)

text \<open>
  C2: a closing door whose counter has not moved for more than 250 ms becomes
  \<open>closed\<close>, with one \<open>closed\<close> publication and the status output driven low; a
  further pass, at any time and with any input levels, changes nothing.
\<close>

theorem doorStateLoop_closed_once:
  assumes "rotaryEncoderDetected s" "doorPositionCounter s = lastDoorPositionCounter s"
    "\<bar>doorPositionCounter s - lastDirectionChangeCounter s\<bar> \<le> 5"
    "now - lastCounterMillis s > 250" "doorState s = Closing"
  shows "doorStateLoop cfg now rd s =
       s\<lparr>doorState := Closed, pin_out := (pin_out s)(STATUS_DOOR := LOW),
         out := out s @ status_msgs cfg doorStatusTopic ''closed'' @ [DigitalWrite STATUS_DOOR LOW]\<rparr>
     \<and> doorStateLoop cfg now' rd' (doorStateLoop cfg now rd s) = doorStateLoop cfg now rd s"
  using assms by (simp add: doorStateLoop_def door_sections)

text \<open>
  C14: after every pass the direction-change baseline is within 5 pulses of the
  sampled counter: the hysteresis band is re-established on each pass.
\<close>

theorem doorStateLoop_hysteresis:
  "\<bar>lastDirectionChangeCounter (doorStateLoop cfg now rd s)
      - lastDoorPositionCounter (doorStateLoop cfg now rd s)\<bar> \<le> 5"
  using directionDetect_bound [of cfg "encoderSample now (reedSwitchStep cfg rd s)"]
  by (simp add: doorStateLoop_def)

text \<open>
  C15: encoder detection is a one-way upgrade: once an encoder pulse has been seen,
  every pass keeps the flag set and the reed switch level has no influence on the pass.
\<close>

theorem doorStateLoop_encoder_one_way:
  "rotaryEncoderDetected s \<Longrightarrow>
   rotaryEncoderDetected (doorStateLoop cfg now rd s) \<and> doorStateLoop cfg now rd' s = doorStateLoop cfg now rd s"
  by (simp add: doorStateLoop_def door_sections door_sections_encoder)

text \<open>
  C16: symmetrically, a counter more than 5 pulses below the baseline sets the state
  to \<open>closing\<close> and publishes \<open>closing\<close> exactly when it was not \<open>closing\<close>.
\<close>

theorem doorStateLoop_closing:
  assumes "rotaryEncoderDetected s" "doorPositionCounter s \<noteq> lastDoorPositionCounter s"
    "lastDirectionChangeCounter s - doorPositionCounter s > 5"
  shows "doorStateLoop cfg now rd s =
     s\<lparr>out := out s @ (if doorState s = Closing then [] else status_msgs cfg doorStatusTopic ''closing''),
       doorState := Closing, rotaryEncoderDetected := True, lastCounterMillis := now,
       lastDirectionChangeCounter := doorPositionCounter s,
       lastDoorPositionCounter := doorPositionCounter s\<rparr>"
  using assms by (simp add: doorStateLoop_def door_sections)

text \<open>
  C19: on the reed path a low reed input gives \<open>reed_closed\<close> and drives the door
  status output HIGH, while the encoder path drives it LOW for \<open>closed\<close>: the same
  physical position gives opposite indicator levels depending on the sensor fitted.
\<close>

theorem doorStateLoop_reed_closed:
  assumes "\<not> rotaryEncoderDetected s" "doorPositionCounter s = lastDoorPositionCounter s"
    "\<bar>doorPositionCounter s - lastDirectionChangeCounter s\<bar> \<le> 5"
    "rd INPUT_RPM1 = LOW" "doorState s \<noteq> Reed_closed"
  shows "doorStateLoop cfg now rd s =
     s\<lparr>doorState := Reed_closed, pin_out := (pin_out s)(STATUS_DOOR := HIGH),
       out := out s @ status_msgs cfg doorStatusTopic ''reed_closed'' @ [DigitalWrite STATUS_DOOR HIGH]\<rparr>"
  using assms by (simp add: doorStateLoop_def door_sections reedSwitchStep_closed)

text \<open>
  C31: \<open>opening\<close> is announced once per threshold crossing, not once per pulse.
  From a state within the hysteresis band and not \<open>opening\<close>, any sequence of passes
  over a strictly rising counter that ends more than 5 pulses above the baseline leaves
  the state \<open>opening\<close> and adds exactly one \<open>opening\<close> status to the log and nothing
  else, however many further baselines the rise crosses.
\<close>

theorem door_opening_once:
  assumes "rotaryEncoderDetected s" "doorState s \<noteq> Opening"
    "\<bar>lastDirectionChangeCounter s - lastDoorPositionCounter s\<bar> \<le> 5"
    "sorted_wrt (<) (lastDoorPositionCounter s # map snd ps)"
    "last (lastDoorPositionCounter s # map snd ps) - lastDirectionChangeCounter s > 5"
  shows "doorState (door_passes cfg rd ps s) = Opening
    \<and> out (door_passes cfg rd ps s) = out s @ status_msgs cfg doorStatusTopic ''opening''"
  using assms
proof (induction ps arbitrary: s)
  case Nil
  then show ?case by simp
next
  case (Cons p ps)
  obtain t c where p: "p = (t, c)" by fastforce
  let ?s' = "doorStateLoop cfg t rd (s\<lparr>doorPositionCounter := c\<rparr>)"
  show ?case
  proof (cases "c - lastDirectionChangeCounter s > 5")
    case True
    with Cons.prems p have s': "?s' = s\<lparr>doorPositionCounter := c,
         out := out s @ status_msgs cfg doorStatusTopic ''opening'',
         doorState := Opening, lastDirectionChangeCounter := c, lastCounterMillis := t,
         lastDoorPositionCounter := c\<rparr>"
      by (simp add: doorStateLoop_advance)
    have "doorState (door_passes cfg rd ps ?s') = Opening \<and> out (door_passes cfg rd ps ?s') = out ?s'"
      by (rule door_passes_opening) (use Cons.prems p s' in simp_all)
    with s' p show ?thesis by (simp add: door_passes_Cons)
  next
    case False
    with Cons.prems p have s': "?s' = s\<lparr>doorPositionCounter := c, lastCounterMillis := t,
         lastDoorPositionCounter := c\<rparr>"
      by (simp add: doorStateLoop_advance)
    have "doorState (door_passes cfg rd ps ?s') = Opening
      \<and> out (door_passes cfg rd ps ?s') = out ?s' @ status_msgs cfg doorStatusTopic ''opening''"
      by (rule Cons.IH) (use Cons.prems p s' False in auto)
    with s' p show ?thesis by (simp add: door_passes_Cons)
  qed
qed
end
