(* ===== verification/Protocol.thy ===== *)
theory Protocol
  imports DoorState "HOL-Library.While_Combinator"
begin

text \<open>
  The command protocol layer of \<^verbatim>\<open>ratgdo.cpp\<close>: the bus transmission primitive
  \<open>transmit\<close>, the reboot synchronisation \<open>sync\<close>, the commands \<open>openDoor\<close>,
  \<open>closeDoor\<close> and \<open>toggleLight\<close>, and the status senders.  The rolling-code
  collaborators that the source declares in its header and not under \<^verbatim>\<open>src/\<close>
  (\<open>getRollingCode\<close>, \<open>writeCounterToFlash\<close>, \<open>readCounterFromFlash\<close>) are
  modelled from the specification: \<open>getRollingCode\<close> stores the payload the
  configured encoder gives for the command and the current counter in the global
  buffer \<open>rollingCode\<close> and advances the counter by one; the flash store is the
  field \<open>flashCounter\<close>.  The observation functions at the end read the effect log
  as the opener's bus sees it.
\<close>

record ratgdo_state = door_rec +
  rollingCodeCounter :: "32 word"
  rollingCode :: "byte list"
  flashCounter :: "32 word"

section \<open>Transmission\<close>

text \<open>
  \<open>swSerial.write(payload, length)\<close> writes \<open>length\<close> bytes of the buffer; the model
  writes the first \<open>len\<close> bytes of the payload.  The two agree when the payload has at
  least \<open>len\<close> bytes, as the fixed-length encoder output and the configured codes of
  the specification do; a shorter buffer would be read out of bounds in C.
\<close>

definition transmit :: "byte list \<Rightarrow> nat \<Rightarrow> 'a io_state_scheme \<Rightarrow> 'a io_state_scheme" where
  "transmit payload len s =
     emit (SerialWrite (take len payload))
       (delayMicroseconds 1260
         (digitalWrite OUTPUT_GDO LOW
           (delayMicroseconds 1305
             (digitalWrite OUTPUT_GDO HIGH s))))"

section \<open>Rolling-code collaborators\<close>

definition getRollingCode :: "config \<Rightarrow> string \<Rightarrow> 'a ratgdo_state_scheme \<Rightarrow> 'a ratgdo_state_scheme" where
  "getRollingCode cfg command s =
     s\<lparr>rollingCode := encodeRollingCode cfg command (rollingCodeCounter s),
       rollingCodeCounter := rollingCodeCounter s + 1\<rparr>"

definition writeCounterToFlash :: "'a ratgdo_state_scheme \<Rightarrow> 'a ratgdo_state_scheme" where
  "writeCounterToFlash s =
     emit (StoreCounter (rollingCodeCounter s)) (s\<lparr>flashCounter := rollingCodeCounter s\<rparr>)"

definition readCounterFromFlash :: "'a ratgdo_state_scheme \<Rightarrow> 'a ratgdo_state_scheme" where
  "readCounterFromFlash s = s\<lparr>rollingCodeCounter := flashCounter s\<rparr>"

text \<open>\<open>getRollingCode(cmd); transmit(rollingCode, CODE_LENGTH);\<close>, the pair the source repeats.\<close>

definition sendRollingCode :: "config \<Rightarrow> string \<Rightarrow> 'a ratgdo_state_scheme \<Rightarrow> 'a ratgdo_state_scheme" where
  "sendRollingCode cfg command s =
     (let s1 = getRollingCode cfg command s in transmit (rollingCode s1) (CODE_LENGTH cfg) s1)"

text \<open>
  The fixed-code preamble, \<open>for (i = 0; i < 4; i++) { transmit(SYNC_CODE[i], CODE_LENGTH); delay(45); }\<close>,
  kept as a loop over the pair of the index and the state: \<open>None\<close> would be a loop
  that does not stop, which \<open>sendSyncCodes\<close> then leaves as it found it.
\<close>

definition syncCodeLoop :: "config \<Rightarrow> 'a io_state_scheme \<Rightarrow> (nat \<times> 'a io_state_scheme) option" where
  "syncCodeLoop cfg s =
     while_option (\<lambda>(i, s). i < 4)
       (\<lambda>(i, s). (Suc i, delay 45 (transmit (SYNC_CODE cfg i) (CODE_LENGTH cfg) s))) (0, s)"

definition sendSyncCodes :: "config \<Rightarrow> 'a io_state_scheme \<Rightarrow> 'a io_state_scheme" where
  "sendSyncCodes cfg s = (case syncCodeLoop cfg s of Some (i, s') \<Rightarrow> s' | None \<Rightarrow> s)"

section \<open>Commands\<close>

text \<open>
  The body of \<open>sync\<close> is six code transmissions (\<open>getRollingCode\<close>,
  \<open>transmit\<close>, \<open>delay(45)\<close>) followed by one \<open>writeCounterToFlash\<close>.
  \<open>syncCodes cfg k\<close> is the first \<open>k\<close> transmissions: \<open>sync\<close> runs all six, and
  a power cut inside \<open>sync\<close> stops after fewer, before the store.
\<close>

definition syncCodes :: "config \<Rightarrow> nat \<Rightarrow> 'a ratgdo_state_scheme \<Rightarrow> 'a ratgdo_state_scheme" where
  "syncCodes cfg k s =
     foldl (\<lambda>s command. delay 45 (sendRollingCode cfg command s)) s
       (take k [''reboot1'', ''reboot2'', ''reboot3'', ''reboot4'', ''reboot5'', ''reboot6''])"

definition sync :: "config \<Rightarrow> 'a ratgdo_state_scheme \<Rightarrow> 'a ratgdo_state_scheme" where
  "sync cfg s = (if \<not> useRollingCodes cfg then s else writeCounterToFlash (syncCodes cfg 6 s))"

definition openDoor :: "config \<Rightarrow> 'a ratgdo_state_scheme \<Rightarrow> 'a ratgdo_state_scheme" where
  "openDoor cfg s =
     (if doorState s = Open \<or> doorState s = Opening then s
      else
        let s1 = s\<lparr>doorState := Opening\<rparr>
        in if useRollingCodes cfg then
             writeCounterToFlash (sendRollingCode cfg ''door2'' (delay 40 (sendRollingCode cfg ''door1'' s1)))
           else transmit (DOOR_CODE cfg) (CODE_LENGTH cfg) (sendSyncCodes cfg s1))"

definition closeDoor :: "config \<Rightarrow> 'a ratgdo_state_scheme \<Rightarrow> 'a ratgdo_state_scheme" where
  "closeDoor cfg s =
     (if doorState s = Closed \<or> doorState s = Closing then s
      else
        let s1 = s\<lparr>doorState := Closing\<rparr>
        in if useRollingCodes cfg then
             writeCounterToFlash (sendRollingCode cfg ''door2'' (delay 40 (sendRollingCode cfg ''door1'' s1)))
           else transmit (DOOR_CODE cfg) (CODE_LENGTH cfg) (sendSyncCodes cfg s1))"

definition toggleLight :: "config \<Rightarrow> 'a ratgdo_state_scheme \<Rightarrow> 'a ratgdo_state_scheme" where
  "toggleLight cfg s =
     (if useRollingCodes cfg then writeCounterToFlash (sendRollingCode cfg ''light'' s)
      else transmit (LIGHT_CODE cfg) (CODE_LENGTH cfg) (sendSyncCodes cfg s))"

section \<open>Status senders\<close>

definition sendDoorStatus :: "config \<Rightarrow> 'a door_rec_scheme \<Rightarrow> 'a door_rec_scheme" where
  "sendDoorStatus cfg s = publishStatus cfg doorStatusTopic (door_state_str (doorState s)) s"

text \<open>\<open>String(rollingCodeCounter)\<close>: the decimal digits of the counter.\<close>

fun decimal :: "nat \<Rightarrow> string" where
  "decimal n = (if n < 10 then [char_of (48 + n)] else decimal (n div 10) @ [char_of (48 + n mod 10)])"

definition sendCurrentCounter :: "config \<Rightarrow> 'a ratgdo_state_scheme \<Rightarrow> 'a ratgdo_state_scheme" where
  "sendCurrentCounter cfg s =
     (if isConfigFileOk cfg then publish rollingCodeTopic (decimal (unat (rollingCodeCounter s))) True s else s)"

definition manageHardwareButton :: "'a io_state_scheme \<Rightarrow> 'a io_state_scheme" where
  "manageHardwareButton s = s"

text \<open>The effects of the fixed-code preamble.\<close>

definition sync_frames :: "config \<Rightarrow> effect list" where
  "sync_frames cfg =
     concat (map (\<lambda>i. wake_frame (take (CODE_LENGTH cfg) (SYNC_CODE cfg i)) @ [Delay 45]) [0..<4])"

text \<open>Reading a decimal string back, and the digit characters.\<close>

fun parse_decimal_acc :: "nat \<Rightarrow> string \<Rightarrow> nat" where
  "parse_decimal_acc acc [] = acc"
| "parse_decimal_acc acc (c # cs) = parse_decimal_acc (10 * acc + (of_char c - 48)) cs"

definition parse_decimal :: "string \<Rightarrow> nat" where
  "parse_decimal str = parse_decimal_acc 0 str"

definition dec_digit :: "char \<Rightarrow> bool" where
  "dec_digit c \<longleftrightarrow> 48 \<le> (of_char c :: nat) \<and> (of_char c :: nat) \<le> 57"

section \<open>Normal forms of the operations\<close>

lemma transmit_eq:
  "transmit p len s = s\<lparr>pin_out := (pin_out s)(OUTPUT_GDO := LOW), out := out s @ wake_frame (take len p)\<rparr>"
  by (simp add: transmit_def effect_simps wake_frame_def)

lemma sendRollingCode_eq:
  "sendRollingCode cfg command s =
     s\<lparr>rollingCode := encodeRollingCode cfg command (rollingCodeCounter s),
       rollingCodeCounter := rollingCodeCounter s + 1,
       pin_out := (pin_out s)(OUTPUT_GDO := LOW),
       out := out s @ wake_frame (take (CODE_LENGTH cfg) (encodeRollingCode cfg command (rollingCodeCounter s)))\<rparr>"
  by (simp add: sendRollingCode_def getRollingCode_def transmit_eq)

lemma writeCounterToFlash_eq:
  "writeCounterToFlash s =
     s\<lparr>flashCounter := rollingCodeCounter s, out := out s @ [StoreCounter (rollingCodeCounter s)]\<rparr>"
  by (simp add: writeCounterToFlash_def effect_simps)

text \<open>The loop, unrolled: the guard only reads the index, so each unfolding decides it.\<close>

lemma syncCodeLoop_result:
  "syncCodeLoop cfg s =
     Some (4, foldl (\<lambda>s i. delay 45 (transmit (SYNC_CODE cfg i) (CODE_LENGTH cfg) s)) s [0..<4])"
  by (simp add: syncCodeLoop_def while_option_unfold [of _ _ "(_, _)"] upt_rec)

lemma sendSyncCodes_eq:
  "sendSyncCodes cfg s = s\<lparr>pin_out := (pin_out s)(OUTPUT_GDO := LOW), out := out s @ sync_frames cfg\<rparr>"
  by (simp add: sendSyncCodes_def syncCodeLoop_result sync_frames_def transmit_eq effect_simps upt_rec)

lemmas protocol_eqs = transmit_eq sendRollingCode_eq writeCounterToFlash_eq sendSyncCodes_eq

lemma sync_fixed: "\<not> useRollingCodes cfg \<Longrightarrow> sync cfg s = s"
  by (simp add: sync_def syncCodes_def)

section \<open>The decimal rendering\<close>

declare decimal.simps [simp del]

lemma parse_decimal_acc_append [simp]:
  "parse_decimal_acc acc (xs @ ys) = parse_decimal_acc (parse_decimal_acc acc xs) ys"
  by (induction acc xs rule: parse_decimal_acc.induct) simp_all

lemma of_char_digit [simp]: "(d::nat) < 10 \<Longrightarrow> of_char (char_of (48 + d)) = 48 + d"
  by (simp add: of_char_of)

lemma parse_decimal_acc_decimal:
  "parse_decimal_acc acc (decimal n) = acc * 10 ^ length (decimal n) + n"
proof (induction n arbitrary: acc rule: decimal.induct)
  case (1 n)
  show ?case
  proof (cases "n < 10")
    case True
    then show ?thesis by (simp add: decimal.simps [of n])
  next
    case False
    then have "parse_decimal_acc acc (decimal n)
        = 10 * (acc * 10 ^ length (decimal (n div 10)) + n div 10) + n mod 10"
      using "1.IH" [OF False] by (simp add: decimal.simps [of n])
    also have "\<dots> = acc * 10 ^ length (decimal n) + n"
      using False by (simp add: decimal.simps [of n] algebra_simps)
    finally show ?thesis .
  qed
qed

lemma length_decimal: "length (decimal n) = (if n < 10 then 1 else Suc (length (decimal (n div 10))))"
  by (subst decimal.simps) simp
lemma decimal_length_bound: "n < 10 ^ k \<Longrightarrow> 0 < k \<Longrightarrow> length (decimal n) \<le> k"
proof (induction n arbitrary: k rule: decimal.induct)
  case (1 n)
  show ?case
  proof (cases "n < 10")
    case True
    then show ?thesis using "1.prems"(2) by (subst length_decimal) simp
  next
    case False
    from "1.prems"(2) obtain k' where k: "k = Suc k'" by (cases k) auto
    have "n div 10 < 10 ^ k'" using "1.prems"(1) k by (simp add: less_mult_imp_div_less mult.commute)
    moreover have "0 < k'" using "1.prems"(1) False k by (cases k') auto
    ultimately have "length (decimal (n div 10)) \<le> k'" using "1.IH" [OF False] by blast
    then show ?thesis using False k by (subst length_decimal) simp
  qed
qed

lemma decimal_digits: "list_all dec_digit (decimal n)"
proof (induction n rule: decimal.induct)
  case (1 n)
  then show ?case
    by (cases "n < 10") (simp_all add: decimal.simps [of n] dec_digit_def)
qed

section \<open>Lemmas on the bus observations\<close>

lemma framed_sync_frames: "framed (sync_frames cfg)"
  by (simp add: sync_frames_def upt_rec framed_append framed_wake_frame framed_non_bus del: append_assoc)

lemmas framed_intros = framed_append framed_wake_frame framed_non_bus framed_status_msgs framed_sync_frames

text \<open>
  Every command keeps the bus log framed: each payload written to the opener is
  immediately preceded by the 1305 \<mu>s wake-up pulse and the 1260 \<mu>s gap.
\<close>

lemma commands_framed:
  assumes "framed (out s)"
  shows "framed (out (openDoor cfg s)) \<and> framed (out (closeDoor cfg s))
       \<and> framed (out (toggleLight cfg s)) \<and> framed (out (sync cfg s))"
  using assms
  by (simp add: openDoor_def closeDoor_def toggleLight_def sync_def syncCodes_def Let_def protocol_eqs effect_simps
      framed_intros del: append_assoc)

section \<open>Properties of the commands\<close>

text \<open>
  C9: \<open>openDoor\<close> on a door that is \<open>open\<close> or \<open>opening\<close> does nothing at all:
  no transmission, no counter change, no state change.
\<close>

theorem openDoor_guard:
  "doorState s = Open \<or> doorState s = Opening \<Longrightarrow> openDoor cfg s = s"
  by (auto simp: openDoor_def)

text \<open>
  C10: in rolling-code mode, \<open>openDoor\<close> on a door that is neither open nor opening
  sets the state to \<open>opening\<close> before transmitting, sends the \<open>door1\<close> payload for
  the current counter and, 40 ms later, the \<open>door2\<close> payload for the next one, each
  in its wake-up frame, and then persists the counter, advanced by exactly two.
\<close>

theorem openDoor_rolling:
  assumes "useRollingCodes cfg" "doorState s \<noteq> Open" "doorState s \<noteq> Opening"
  shows "openDoor cfg s =
     s\<lparr>doorState := Opening, rollingCodeCounter := rollingCodeCounter s + 2,
       rollingCode := encodeRollingCode cfg ''door2'' (rollingCodeCounter s + 1),
       flashCounter := rollingCodeCounter s + 2,
       pin_out := (pin_out s)(OUTPUT_GDO := LOW),
       out := out s @ wake_frame (take (CODE_LENGTH cfg) (encodeRollingCode cfg ''door1'' (rollingCodeCounter s)))
                    @ [Delay 40]
                    @ wake_frame (take (CODE_LENGTH cfg) (encodeRollingCode cfg ''door2'' (rollingCodeCounter s + 1)))
                    @ [StoreCounter (rollingCodeCounter s + 2)]\<rparr>"
  using assms by (simp add: openDoor_def protocol_eqs effect_simps)

text \<open>
  C11: in rolling-code mode the reboot synchronisation sends the six payloads
  \<open>reboot1\<close> \<dots> \<open>reboot6\<close> for six consecutive counter values, and persists the
  counter once, at the end, advanced by six.
\<close>

theorem sync_rolling:
  assumes "useRollingCodes cfg"
  shows "rollingCodeCounter (sync cfg s) = rollingCodeCounter s + 6
    \<and> flashCounter (sync cfg s) = rollingCodeCounter s + 6
    \<and> stores (out (sync cfg s)) = stores (out s) @ [rollingCodeCounter s + 6]
    \<and> payloads (out (sync cfg s)) = payloads (out s) @
        map (\<lambda>(command, k). take (CODE_LENGTH cfg) (encodeRollingCode cfg command (rollingCodeCounter s + k)))
          [(''reboot1'', 0), (''reboot2'', 1), (''reboot3'', 2), (''reboot4'', 3), (''reboot5'', 4), (''reboot6'', 5)]"
  using assms by (simp add: sync_def syncCodes_def protocol_eqs effect_simps stores_def payloads_def wake_frame_def ac_simps)

text \<open>
  C18: the open and close guards compare with \<open>open\<close>/\<open>opening\<close> and
  \<open>closed\<close>/\<open>closing\<close> only.  On the reed-switch path (and before the first
  classification) neither guard applies, and \<open>openDoor\<close> and \<open>closeDoor\<close> put exactly
  the same traffic on the bus and advance the counter alike: an open request on a
  door the reed switch reports open is sent, and the opener toggles it.
\<close>

theorem reed_open_close_same_traffic:
  assumes "doorState s \<in> {Reed_open, Reed_closed, Unknown}"
  shows "out (openDoor cfg s) = out (closeDoor cfg s)
       \<and> rollingCodeCounter (openDoor cfg s) = rollingCodeCounter (closeDoor cfg s)"
  using assms by (auto simp: openDoor_def closeDoor_def Let_def protocol_eqs effect_simps)

text \<open>
  C21: in rolling-code mode \<open>toggleLight\<close>, which has no guard, sends the
  \<open>light\<close> payload for the current counter and persists the counter advanced by one.
\<close>

theorem toggleLight_rolling:
  assumes "useRollingCodes cfg"
  shows "toggleLight cfg s =
     s\<lparr>rollingCodeCounter := rollingCodeCounter s + 1,
       rollingCode := encodeRollingCode cfg ''light'' (rollingCodeCounter s),
       flashCounter := rollingCodeCounter s + 1,
       pin_out := (pin_out s)(OUTPUT_GDO := LOW),
       out := out s @ wake_frame (take (CODE_LENGTH cfg) (encodeRollingCode cfg ''light'' (rollingCodeCounter s)))
                    @ [StoreCounter (rollingCodeCounter s + 1)]\<rparr>"
  using assms by (simp add: toggleLight_def protocol_eqs effect_simps)

text \<open>
  C22: the door commands carry no direction: opening a closed door and closing an
  open one, from the same counter, produce the same bus traffic and stored counter.
\<close>

theorem open_close_direction_free:
  assumes "doorState s = Closed"
  shows "out (openDoor cfg s) = out (closeDoor cfg (s\<lparr>doorState := Open\<rparr>))
       \<and> flashCounter (openDoor cfg s) = flashCounter (closeDoor cfg (s\<lparr>doorState := Open\<rparr>))"
  using assms by (simp add: openDoor_def closeDoor_def Let_def protocol_eqs effect_simps)

text \<open>
  C26: in fixed-code mode \<open>openDoor\<close> sends the four sync codes, each followed by
  45 ms, then the door code, and leaves the rolling counter and its store alone.
\<close>

theorem openDoor_fixed:
  assumes "\<not> useRollingCodes cfg" "doorState s \<noteq> Open" "doorState s \<noteq> Opening"
  shows "openDoor cfg s =
     s\<lparr>doorState := Opening, pin_out := (pin_out s)(OUTPUT_GDO := LOW),
       out := out s @ sync_frames cfg @ wake_frame (take (CODE_LENGTH cfg) (DOOR_CODE cfg))\<rparr>"
  using assms by (simp add: openDoor_def protocol_eqs effect_simps)

text \<open>
  C27: \<open>sendCurrentCounter\<close> publishes the in-memory counter, retained, on the
  counter topic, and changes nothing else; the string it publishes is the decimal
  rendering of \<open>String(rollingCodeCounter)\<close>, a non-empty string of at most ten
  digits that reads back as the counter's value.  With publication disabled it does
  nothing.
\<close>

theorem sendCurrentCounter_publishes:
  "(isConfigFileOk cfg \<longrightarrow>
      (\<exists>v. sendCurrentCounter cfg s = s\<lparr>out := out s @ [Publish rollingCodeTopic v True]\<rparr>
          \<and> parse_decimal v = unat (rollingCodeCounter s) \<and> list_all dec_digit v
          \<and> v \<noteq> [] \<and> length v \<le> 10))
   \<and> (\<not> isConfigFileOk cfg \<longrightarrow> sendCurrentCounter cfg s = s)"
proof -
  let ?v = "decimal (unat (rollingCodeCounter s))"
  have "unat (rollingCodeCounter s) < 2 ^ 32"
    using unsigned_less [of "rollingCodeCounter s"] by simp
  then have "unat (rollingCodeCounter s) < 10 ^ 10" by simp
  then have len: "length ?v \<le> 10" by (rule decimal_length_bound) simp
  have rt: "parse_decimal ?v = unat (rollingCodeCounter s)"
    using parse_decimal_acc_decimal [of 0 "unat (rollingCodeCounter s)"] by (simp add: parse_decimal_def)
  have ne: "?v \<noteq> []" by (simp add: decimal.simps [of "unat (rollingCodeCounter s)"])
  have "isConfigFileOk cfg \<Longrightarrow>
      sendCurrentCounter cfg s = s\<lparr>out := out s @ [Publish rollingCodeTopic ?v True]\<rparr>"
    by (simp add: sendCurrentCounter_def effect_simps)
  then show ?thesis using len rt ne decimal_digits [of "unat (rollingCodeCounter s)"]
    by (auto simp: sendCurrentCounter_def)
qed

text \<open>
  C38: the fixed-code preamble loop stops after exactly four passes, whatever the
  configuration and the state, having driven the bus line low and sent the four sync
  frames, each followed by its 45 ms pause.
\<close>

theorem syncCodeLoop_four_passes:
  "syncCodeLoop cfg s =
     Some (4, s\<lparr>pin_out := (pin_out s)(OUTPUT_GDO := LOW), out := out s @ sync_frames cfg\<rparr>)"
  by (simp add: syncCodeLoop_result sync_frames_def transmit_eq effect_simps upt_rec)

end
