(* ===== verification/Controller.thy ===== *)
theory Controller
  imports Protocol
begin

text \<open>
  The main loop and start-up of \<^verbatim>\<open>ratgdo.cpp\<close> (\<open>RATGDOComponent::loop\<close>,
  \<open>RATGDOComponent::setup\<close>, \<open>dryContactLoop\<close>) and the whole controller as a state
  machine: a run is a boot followed by any interleaving of interrupt handlers and
  loop passes, each with the clock value and input levels it sees.  The invariant
  proved over all reachable states ties the status outputs to the classified
  states, the persisted counter to the in-memory one and to the number of payloads
  sent, bounds the direction hysteresis, and keeps every bus payload framed.
\<close>

definition dryContactLoop :: "config \<Rightarrow> 'a ratgdo_state_scheme \<Rightarrow> 'a ratgdo_state_scheme" where
  "dryContactLoop cfg s =
     (let s1 = (if dryContactDoorOpen s then openDoor cfg (s\<lparr>dryContactDoorOpen := False\<rparr>) else s);
          s2 = (if dryContactDoorClose s1 then closeDoor cfg (s1\<lparr>dryContactDoorClose := False\<rparr>) else s1)
      in if dryContactToggleLight s2 then toggleLight cfg (s2\<lparr>dryContactToggleLight := False\<rparr>) else s2)"

definition ratgdo_loop :: "config \<Rightarrow> ms \<Rightarrow> pins \<Rightarrow> 'a ratgdo_state_scheme \<Rightarrow> 'a ratgdo_state_scheme" where
  "ratgdo_loop cfg now rd s = dryContactLoop cfg (doorStateLoop cfg now rd (obstructionLoop cfg now rd s))"

definition ratgdo_setup :: "config \<Rightarrow> 'a ratgdo_state_scheme \<Rightarrow> 'a ratgdo_state_scheme" where
  "ratgdo_setup cfg s = (let s1 = readCounterFromFlash s in if useRollingCodes cfg then sync cfg s1 else s1)"

text \<open>
  The state at power-on: the globals and statics of the source start at zero,
  \<open>false\<close> or the empty string; the flash holds the counter stored by the last run.
\<close>

definition power_on :: "32 word \<Rightarrow> ratgdo_state" where
  "power_on stored =
     \<lparr>pin_out = (\<lambda>_. LOW), out = [],
      doorPositionCounter = 0, rpm1Pulsed = False, obstructionLowCount = 0, lastObstructionHigh = 0,
      dryContactDoorOpen = False, dryContactDoorClose = False, dryContactToggleLight = False,
      lastOpenDoorTime = 0, lastCloseDoorTime = 0, lastToggleLightTime = 0, lastPulse = 0,
      doorIsObstructed = False, lastMillis = 0, lastInterruptTime = 0,
      doorState = Unknown, rotaryEncoderDetected = False, lastDoorPositionCounter = 0,
      lastDirectionChangeCounter = 0, lastCounterMillis = 0,
      rollingCodeCounter = 0, rollingCode = [], flashCounter = stored\<rparr>"

text \<open>What can happen between two observations: one interrupt handler, or one pass of the loop.\<close>

datatype event =
    EvDoorOpen ms pins | EvDoorClose ms pins | EvLight ms pins | EvObstruction ms pins
  | EvRPM1 | EvRPM2 ms pins | EvLoop ms pins

fun ratgdo_step :: "config \<Rightarrow> ratgdo_state \<Rightarrow> event \<Rightarrow> ratgdo_state" where
  "ratgdo_step cfg s (EvDoorOpen t rd) = isrDoorOpen t rd s"
| "ratgdo_step cfg s (EvDoorClose t rd) = isrDoorClose t rd s"
| "ratgdo_step cfg s (EvLight t rd) = isrLight t rd s"
| "ratgdo_step cfg s (EvObstruction t rd) = isrObstruction t rd s"
| "ratgdo_step cfg s EvRPM1 = isrRPM1 s"
| "ratgdo_step cfg s (EvRPM2 t rd) = isrRPM2 t rd s"
| "ratgdo_step cfg s (EvLoop t rd) = ratgdo_loop cfg t rd s"

definition ratgdo_run :: "config \<Rightarrow> ratgdo_state \<Rightarrow> event list \<Rightarrow> ratgdo_state" where
  "ratgdo_run cfg s es = foldl (ratgdo_step cfg) s es"

inductive reachable :: "config \<Rightarrow> 32 word \<Rightarrow> ratgdo_state \<Rightarrow> bool" where
  boot: "reachable cfg stored (ratgdo_setup cfg (power_on stored))"
| step: "reachable cfg stored s \<Longrightarrow> reachable cfg stored (ratgdo_step cfg s e)"

definition ratgdo_inv :: "config \<Rightarrow> 32 word \<Rightarrow> ratgdo_state \<Rightarrow> bool" where
  "ratgdo_inv cfg stored s \<longleftrightarrow>
     obst_pin_ok s \<and> door_pin_ok s
   \<and> flashCounter s = rollingCodeCounter s
   \<and> rollingCodeCounter s = stored + (if useRollingCodes cfg then of_nat (length (payloads (out s))) else 0)
   \<and> \<bar>lastDirectionChangeCounter s - lastDoorPositionCounter s\<bar> \<le> 5
   \<and> framed (out s)"

text \<open>
  Well-formed effects: a status is published retained and with one of the literals
  the source publishes on its topic (the six door states on the door topic, the two
  obstruction states on the obstruction topic, either on the overall topic, nothing
  on the counter topic from the loop); only the three output pins are written; a bus
  payload is at most \<open>CODE_LENGTH\<close> bytes.
\<close>

definition status_values :: "topic \<Rightarrow> string list" where
  "status_values t =
     (case t of
        doorStatusTopic \<Rightarrow> map door_state_str [Reed_open, Reed_closed, Opening, Closing, Open, Closed]
      | obstructionStatusTopic \<Rightarrow> [''obstructed'', ''clear'']
      | overallStatusTopic \<Rightarrow>
          map door_state_str [Reed_open, Reed_closed, Opening, Closing, Open, Closed] @ [''obstructed'', ''clear'']
      | rollingCodeTopic \<Rightarrow> [])"

fun effect_ok :: "config \<Rightarrow> effect \<Rightarrow> bool" where
  "effect_ok cfg (Publish t v retained) = (retained \<and> v \<in> set (status_values t))"
| "effect_ok cfg (DigitalWrite p level) = (p \<in> set [STATUS_DOOR, STATUS_OBST, OUTPUT_GDO])"
| "effect_ok cfg (SerialWrite payload) = (length payload \<le> CODE_LENGTH cfg)"
| "effect_ok cfg _ = True"


section \<open>Frame lemmas for the full state\<close>

lemma capture_more_fields:
  "capture_state.more (s'::ratgdo_state) = capture_state.more s \<Longrightarrow>
   doorIsObstructed s' = doorIsObstructed s \<and> doorState s' = doorState s
   \<and> lastDirectionChangeCounter s' = lastDirectionChangeCounter s
   \<and> lastDoorPositionCounter s' = lastDoorPositionCounter s
   \<and> rollingCodeCounter s' = rollingCodeCounter s \<and> flashCounter s' = flashCounter s"
  by (cases s, cases s') simp

lemma obst_more_fields:
  "obst_state.more (s'::ratgdo_state) = obst_state.more s \<Longrightarrow>
   doorState s' = doorState s
   \<and> lastDirectionChangeCounter s' = lastDirectionChangeCounter s
   \<and> lastDoorPositionCounter s' = lastDoorPositionCounter s
   \<and> rollingCodeCounter s' = rollingCodeCounter s \<and> flashCounter s' = flashCounter s"
  by (cases s, cases s') simp

lemma passes_keep_codes:
  "payloads (out (obstructionLoop cfg t rd s)) = payloads (out s)
   \<and> rollingCodeCounter (obstructionLoop cfg t rd (s::ratgdo_state)) = rollingCodeCounter s
   \<and> payloads (out (doorStateLoop cfg t rd s)) = payloads (out s)
   \<and> rollingCodeCounter (doorStateLoop cfg t rd s) = rollingCodeCounter s"
proof (intro conjI)
  have bus: "filter is_bus (out (obstructionLoop cfg t rd s)) = filter is_bus (out s)"
    and o: "obst_state.more (obstructionLoop cfg t rd s) = obst_state.more s"
    using obstructionLoop_frame [of cfg t rd s] by simp_all
  from bus show "payloads (out (obstructionLoop cfg t rd s)) = payloads (out s)" by (metis payloads_bus)
  from obst_more_fields [OF o] show "rollingCodeCounter (obstructionLoop cfg t rd s) = rollingCodeCounter s"
    by simp
next
  have bus: "filter is_bus (out (doorStateLoop cfg t rd s)) = filter is_bus (out s)"
    and d: "door_rec.more (doorStateLoop cfg t rd s) = door_rec.more s"
    using doorStateLoop_frame [of cfg t rd s] by simp_all
  from bus show "payloads (out (doorStateLoop cfg t rd s)) = payloads (out s)" by (metis payloads_bus)
  from d show "rollingCodeCounter (doorStateLoop cfg t rd s) = rollingCodeCounter s"
    by (cases s, cases "doorStateLoop cfg t rd s") simp
qed
section \<open>The invariant\<close>

lemma inv_capture_frame:
  assumes "pin_out s' = pin_out s" "out s' = out s" "capture_state.more s' = capture_state.more s"
  shows "ratgdo_inv cfg stored s' = ratgdo_inv cfg stored s"
proof -
  from assms(3) have "doorIsObstructed s' = doorIsObstructed s \<and> doorState s' = doorState s
   \<and> lastDirectionChangeCounter s' = lastDirectionChangeCounter s
   \<and> lastDoorPositionCounter s' = lastDoorPositionCounter s
   \<and> rollingCodeCounter s' = rollingCodeCounter s \<and> flashCounter s' = flashCounter s"
    by (rule capture_more_fields)
  with assms(1,2) show ?thesis by (simp add: ratgdo_inv_def obst_pin_ok_def door_pin_ok_def)
qed

lemma obstructionLoop_inv:
  assumes inv: "ratgdo_inv cfg stored s"
  shows "ratgdo_inv cfg stored (obstructionLoop cfg t rd s)"
proof -
  let ?s' = "obstructionLoop cfg t rd s"
  have pin: "pin_out ?s' STATUS_DOOR = pin_out s STATUS_DOOR"
    and bus: "filter is_bus (out ?s') = filter is_bus (out s)"
    and more: "obst_state.more ?s' = obst_state.more s"
    using obstructionLoop_frame [of cfg t rd s] by simp_all
  from more have f: "doorState ?s' = doorState s
   \<and> lastDirectionChangeCounter ?s' = lastDirectionChangeCounter s
   \<and> lastDoorPositionCounter ?s' = lastDoorPositionCounter s
   \<and> rollingCodeCounter ?s' = rollingCodeCounter s \<and> flashCounter ?s' = flashCounter s"
    by (rule obst_more_fields)
  from bus have "payloads (out ?s') = payloads (out s)" by (metis payloads_bus)
  moreover from bus have "framed (out ?s') = framed (out s)" by (rule framed_same_bus)
  moreover from inv have "obst_pin_ok ?s'" by (simp add: ratgdo_inv_def obstructionLoop_pin_ok)
  ultimately show ?thesis using inv f pin by (simp add: ratgdo_inv_def door_pin_ok_def)
qed

lemma doorStateLoop_inv:
  assumes inv: "ratgdo_inv cfg stored s"
  shows "ratgdo_inv cfg stored (doorStateLoop cfg t rd s)"
proof -
  let ?s' = "doorStateLoop cfg t rd s"
  have obst: "doorIsObstructed ?s' = doorIsObstructed s" "pin_out ?s' STATUS_OBST = pin_out s STATUS_OBST"
    and bus: "filter is_bus (out ?s') = filter is_bus (out s)"
    and more: "door_rec.more ?s' = door_rec.more s"
    using doorStateLoop_frame [of cfg t rd s] by simp_all
  from more have f: "rollingCodeCounter ?s' = rollingCodeCounter s \<and> flashCounter ?s' = flashCounter s"
    by (cases s, cases ?s') simp
  from bus have "payloads (out ?s') = payloads (out s)" by (metis payloads_bus)
  moreover from bus have "framed (out ?s') = framed (out s)" by (rule framed_same_bus)
  moreover from inv have "door_pin_ok ?s'" by (simp add: ratgdo_inv_def doorStateLoop_pin_ok)
  moreover have "\<bar>lastDirectionChangeCounter ?s' - lastDoorPositionCounter ?s'\<bar> \<le> 5"
    using directionDetect_bound [of cfg "encoderSample t (reedSwitchStep cfg rd s)"]
    by (simp add: doorStateLoop_def)
  ultimately show ?thesis using inv f obst by (simp add: ratgdo_inv_def obst_pin_ok_def)
qed

lemma openDoor_inv: "ratgdo_inv cfg stored s \<Longrightarrow> ratgdo_inv cfg stored (openDoor cfg s)"
  using commands_framed [of s cfg]
  by (auto simp: ratgdo_inv_def openDoor_def Let_def protocol_eqs effect_simps obst_pin_ok_def
      door_pin_ok_def algebra_simps)

lemma closeDoor_inv: "ratgdo_inv cfg stored s \<Longrightarrow> ratgdo_inv cfg stored (closeDoor cfg s)"
  using commands_framed [of s cfg]
  by (auto simp: ratgdo_inv_def closeDoor_def Let_def protocol_eqs effect_simps obst_pin_ok_def
      door_pin_ok_def algebra_simps)

lemma toggleLight_inv: "ratgdo_inv cfg stored s \<Longrightarrow> ratgdo_inv cfg stored (toggleLight cfg s)"
  using commands_framed [of s cfg]
  by (auto simp: ratgdo_inv_def toggleLight_def protocol_eqs effect_simps obst_pin_ok_def
      door_pin_ok_def algebra_simps)

lemma dryContact_flags_inv:
  "ratgdo_inv cfg stored (s\<lparr>dryContactDoorOpen := b\<rparr>) = ratgdo_inv cfg stored s"
  "ratgdo_inv cfg stored (s\<lparr>dryContactDoorClose := b\<rparr>) = ratgdo_inv cfg stored s"
  "ratgdo_inv cfg stored (s\<lparr>dryContactToggleLight := b\<rparr>) = ratgdo_inv cfg stored s"
  by (rule inv_capture_frame; simp)+


lemma dryContactLoop_inv:
  assumes "ratgdo_inv cfg stored s"
  shows "ratgdo_inv cfg stored (dryContactLoop cfg s)"
proof -
  let ?s1 = "if dryContactDoorOpen s then openDoor cfg (s\<lparr>dryContactDoorOpen := False\<rparr>) else s"
  let ?s2 = "if dryContactDoorClose ?s1 then closeDoor cfg (?s1\<lparr>dryContactDoorClose := False\<rparr>) else ?s1"
  have 1: "ratgdo_inv cfg stored ?s1"
    using assms by (simp add: dryContact_flags_inv openDoor_inv)
  have 2: "ratgdo_inv cfg stored ?s2"
    using 1 by (simp add: dryContact_flags_inv closeDoor_inv)
  show ?thesis
    using 2 unfolding dryContactLoop_def Let_def
    by (simp add: dryContact_flags_inv toggleLight_inv)
qed

lemma isr_inv:
  assumes "ratgdo_inv cfg stored s"
  shows "ratgdo_inv cfg stored (isrDebounce type t rd s)" "ratgdo_inv cfg stored (isrRPM1 s)"
    "ratgdo_inv cfg stored (isrRPM2 t rd s)" "ratgdo_inv cfg stored (isrObstruction t rd s)"
  using assms
  by (subst inv_capture_frame; simp add: isrDebounce_frame isrRPM_frame isrObstruction_frame)+

lemma ratgdo_step_inv:
  assumes "ratgdo_inv cfg stored s"
  shows "ratgdo_inv cfg stored (ratgdo_step cfg s e)"
  using assms
  by (cases e) (simp_all add: isr_inv isrDoorOpen_def isrDoorClose_def isrLight_def ratgdo_loop_def
      obstructionLoop_inv doorStateLoop_inv dryContactLoop_inv)

lemma boot_inv: "ratgdo_inv cfg stored (ratgdo_setup cfg (power_on stored))"
proof (cases "useRollingCodes cfg")
  case True
  have "framed (out (readCounterFromFlash (power_on stored)))"
    by (simp add: readCounterFromFlash_def power_on_def framed_def)
  then have "framed (out (sync cfg (readCounterFromFlash (power_on stored))))"
    using commands_framed by blast
  with True show ?thesis
    by (simp add: ratgdo_inv_def ratgdo_setup_def sync_def syncCodes_def power_on_def readCounterFromFlash_def
        protocol_eqs effect_simps obst_pin_ok_def door_pin_ok_def algebra_simps)
next
  case False
  then show ?thesis
    by (simp add: ratgdo_inv_def ratgdo_setup_def power_on_def readCounterFromFlash_def
        obst_pin_ok_def door_pin_ok_def framed_def)
qed

lemma reachable_inv: "reachable cfg stored s \<Longrightarrow> ratgdo_inv cfg stored s"
  by (induction rule: reachable.induct) (simp_all add: boot_inv ratgdo_step_inv)

section \<open>Well-formed effects\<close>

lemma effect_ok_status_msgs [simp]:
  "v \<in> set (status_values t) \<Longrightarrow> v \<in> set (status_values overallStatusTopic) \<Longrightarrow>
   list_all (effect_ok cfg) (status_msgs cfg t v)"
  by (simp add: status_msgs_def)

lemma effect_ok_wake_frame [simp]:
  "list_all (effect_ok cfg) (wake_frame p) = (length p \<le> CODE_LENGTH cfg)"
  by (simp add: wake_frame_def)

lemma effect_ok_sync_frames [simp]: "list_all (effect_ok cfg) (sync_frames cfg)"
  by (simp add: sync_frames_def upt_rec)

lemma obstructionLoop_effects:
  "list_all (effect_ok cfg) (out s) \<Longrightarrow> list_all (effect_ok cfg) (out (obstructionLoop cfg t rd s))"
  by (simp add: obstructionLoop_def obstructionClassify_def obstructionWindowEnd_def
      obstructionDetected_def obstructionCleared_def effect_simps status_values_def)

lemma door_sections_effects:
  "list_all (effect_ok cfg) (out s) \<Longrightarrow> list_all (effect_ok cfg) (out (reedSwitchStep cfg rd s))"
  "list_all (effect_ok cfg) (out s) \<Longrightarrow> list_all (effect_ok cfg) (out (encoderSample t s))"
  "list_all (effect_ok cfg) (out s) \<Longrightarrow> list_all (effect_ok cfg) (out (directionDetect cfg s))"
  "list_all (effect_ok cfg) (out s) \<Longrightarrow> list_all (effect_ok cfg) (out (stopDetect cfg t s))"
  by (simp_all add: reedSwitchStep_def encoderSample_def directionDetect_def stopDetect_def
      effect_simps status_values_def Let_def)

lemma doorStateLoop_effects:
  "list_all (effect_ok cfg) (out s) \<Longrightarrow> list_all (effect_ok cfg) (out (doorStateLoop cfg t rd s))"
  by (simp add: doorStateLoop_def Let_def door_sections_effects)

lemma command_effects:
  "list_all (effect_ok cfg) (out s) \<Longrightarrow> list_all (effect_ok cfg) (out (openDoor cfg s))"
  "list_all (effect_ok cfg) (out s) \<Longrightarrow> list_all (effect_ok cfg) (out (closeDoor cfg s))"
  "list_all (effect_ok cfg) (out s) \<Longrightarrow> list_all (effect_ok cfg) (out (toggleLight cfg s))"
  "list_all (effect_ok cfg) (out s) \<Longrightarrow> list_all (effect_ok cfg) (out (sync cfg s))"
  by (simp_all add: openDoor_def closeDoor_def toggleLight_def sync_def syncCodes_def Let_def protocol_eqs
      effect_simps)
lemma dryContactLoop_effects:
  "list_all (effect_ok cfg) (out s) \<Longrightarrow> list_all (effect_ok cfg) (out (dryContactLoop cfg s))"
  by (simp add: dryContactLoop_def Let_def command_effects)

lemma ratgdo_step_effects:
  "list_all (effect_ok cfg) (out s) \<Longrightarrow> list_all (effect_ok cfg) (out (ratgdo_step cfg s e))"
  by (cases e) (simp_all add: isrDoorOpen_def isrDoorClose_def isrLight_def isrDebounce_frame
      isrRPM_frame isrObstruction_frame ratgdo_loop_def obstructionLoop_effects doorStateLoop_effects
      dryContactLoop_effects)

section \<open>Runs of events\<close>

lemma dryContactLoop_idle:
  "\<not> dryContactDoorOpen s \<Longrightarrow> \<not> dryContactDoorClose s \<Longrightarrow> \<not> dryContactToggleLight s \<Longrightarrow>
   dryContactLoop cfg s = s"
  by (simp add: dryContactLoop_def)

lemma ratgdo_run_encoder:
  "ratgdo_run cfg s (concat (map (\<lambda>t. [EvRPM1, EvRPM2 t rd]) ts)) = rpm_cycles rd ts s"
  by (induction ts arbitrary: s) (simp_all add: ratgdo_run_def rpm_cycles_def)

lemma obstructionLoop_door_fields:
  "doorState (obstructionLoop cfg t rd (s::ratgdo_state)) = doorState s
   \<and> rotaryEncoderDetected (obstructionLoop cfg t rd s) = rotaryEncoderDetected s
   \<and> lastDoorPositionCounter (obstructionLoop cfg t rd s) = lastDoorPositionCounter s
   \<and> lastDirectionChangeCounter (obstructionLoop cfg t rd s) = lastDirectionChangeCounter s
   \<and> lastCounterMillis (obstructionLoop cfg t rd s) = lastCounterMillis s"
proof -
  have "obst_state.more (obstructionLoop cfg t rd s) = obst_state.more s"
    using obstructionLoop_frame [of cfg t rd s] by simp
  then show ?thesis by (cases s, cases "obstructionLoop cfg t rd s") simp
qed

lemma reachable_run: "reachable cfg stored s \<Longrightarrow> reachable cfg stored (ratgdo_run cfg s es)"
  by (induction es arbitrary: s) (simp_all add: ratgdo_run_def reachable.step)

section \<open>Properties of the controller\<close>

lemma command_flags:
  "dryContactDoorOpen (openDoor cfg s) = dryContactDoorOpen s"
  "dryContactDoorClose (openDoor cfg s) = dryContactDoorClose s"
  "dryContactToggleLight (openDoor cfg s) = dryContactToggleLight s"
  "dryContactDoorOpen (closeDoor cfg s) = dryContactDoorOpen s"
  "dryContactDoorClose (closeDoor cfg s) = dryContactDoorClose s"
  "dryContactToggleLight (closeDoor cfg s) = dryContactToggleLight s"
  "dryContactDoorOpen (toggleLight cfg s) = dryContactDoorOpen s"
  "dryContactDoorClose (toggleLight cfg s) = dryContactDoorClose s"
  "dryContactToggleLight (toggleLight cfg s) = dryContactToggleLight s"
  by (simp_all add: openDoor_def closeDoor_def toggleLight_def Let_def protocol_eqs effect_simps)

text \<open>
  C17: the dry-contact triggers are single-consumer: after a pass of
  \<open>dryContactLoop\<close> none of the three flags is set, whichever commands it ran.
\<close>

theorem dryContactLoop_clears:
  "\<not> dryContactDoorOpen (dryContactLoop cfg s) \<and> \<not> dryContactDoorClose (dryContactLoop cfg s)
   \<and> \<not> dryContactToggleLight (dryContactLoop cfg s)"
  by (simp add: dryContactLoop_def Let_def command_flags)

text \<open>
  C12: in every reachable state of the controller, the log of the opener bus is
  framed: every payload ever written, at boot or by a command, was immediately
  preceded by the 1305 \<mu>s wake-up pulse and the 1260 \<mu>s gap, and nothing else
  was driven on the bus.
\<close>

theorem reachable_bus_framed:
  "reachable cfg stored s \<Longrightarrow> framed (out s)"
  using reachable_inv by (simp add: ratgdo_inv_def)

text \<open>
  C13: in every reachable state the obstruction output equals the obstruction
  state, the door output agrees with the classified door state, the flash holds the
  in-memory counter, and in rolling-code mode the counter is the value stored at boot
  advanced by exactly the number of payloads sent since (in fixed-code mode it stays
  the stored value).
\<close>

theorem reachable_outputs_and_counter:
  assumes "reachable cfg stored s"
  shows "pin_out s STATUS_OBST = doorIsObstructed s \<and> door_pin_ok s
    \<and> flashCounter s = rollingCodeCounter s
    \<and> rollingCodeCounter s = stored + (if useRollingCodes cfg then of_nat (length (payloads (out s))) else 0)"
  using reachable_inv [OF assms] by (simp add: ratgdo_inv_def obst_pin_ok_def)

text \<open>
  C34: the form of every effect.  In every reachable state, each status in the log
  was published retained with one of the literals of its topic, every pin written is
  an output pin, and every payload on the bus is at most \<open>CODE_LENGTH\<close> bytes long.
\<close>

theorem reachable_effects_well_formed:
  "reachable cfg stored s \<Longrightarrow> list_all (effect_ok cfg) (out s)"
proof (induction rule: reachable.induct)
  case (boot cfg stored)
  have "list_all (effect_ok cfg) (out (readCounterFromFlash (power_on stored)))"
    by (simp add: readCounterFromFlash_def power_on_def)
  then show ?case by (simp add: ratgdo_setup_def Let_def command_effects)
next
  case (step cfg stored s e)
  then show ?case by (simp add: ratgdo_step_effects)
qed
text \<open>
  C35: a moving door always settles.  In every reachable state driven by the encoder,
  once the counter has been still for more than 250 ms, the next pass of the loop
  (with no dry-contact request pending) turns \<open>opening\<close> into \<open>open\<close> and
  \<open>closing\<close> into \<open>closed\<close>, and leaves every other state as it is: the state
  machine never stays in a moving state once the door has stopped.
\<close>

theorem stillness_settles:
  assumes "reachable cfg stored s" "rotaryEncoderDetected s"
    "doorPositionCounter s = lastDoorPositionCounter s" "now - lastCounterMillis s > 250"
    "\<not> dryContactDoorOpen s" "\<not> dryContactDoorClose s" "\<not> dryContactToggleLight s"
  shows "doorState (ratgdo_step cfg s (EvLoop now rd)) =
    (case doorState s of Opening \<Rightarrow> Open | Closing \<Rightarrow> Closed | d \<Rightarrow> d)"
proof -
  let ?s2 = "obstructionLoop cfg now rd s"
  have band: "\<bar>lastDirectionChangeCounter s - lastDoorPositionCounter s\<bar> \<le> 5"
    using reachable_inv [OF assms(1)] by (simp add: ratgdo_inv_def)
  obtain es where c: "doorPositionCounter ?s2 = doorPositionCounter s"
    "\<not> dryContactDoorOpen ?s2" "\<not> dryContactDoorClose ?s2" "\<not> dryContactToggleLight ?s2"
    using obstructionLoop_capture [of cfg now rd s] assms(5-7) by auto
  have d: "doorState ?s2 = doorState s" "rotaryEncoderDetected ?s2"
    "lastDoorPositionCounter ?s2 = lastDoorPositionCounter s"
    "lastDirectionChangeCounter ?s2 = lastDirectionChangeCounter s"
    "lastCounterMillis ?s2 = lastCounterMillis s"
    using obstructionLoop_door_fields [of cfg now rd s] assms(2) by simp_all
  have still: "doorPositionCounter ?s2 = lastDoorPositionCounter ?s2"
    and within: "\<bar>doorPositionCounter ?s2 - lastDirectionChangeCounter ?s2\<bar> \<le> 5"
    and late: "now - lastCounterMillis ?s2 > 250"
    using assms(3,4) band c(1) d by (simp_all add: abs_minus_commute)
  have "doorState (doorStateLoop cfg now rd ?s2) =
      (case doorState ?s2 of Opening \<Rightarrow> Open | Closing \<Rightarrow> Closed | d \<Rightarrow> d)"
    using doorStateLoop_still [of ?s2 cfg now rd] d(2) still within late by (simp add: abs_minus_commute)
  moreover have "dryContactLoop cfg (doorStateLoop cfg now rd ?s2) = doorStateLoop cfg now rd ?s2"
    using doorStateLoop_flags [of cfg now rd ?s2] c(2-4) by (simp add: dryContactLoop_idle)
  ultimately show ?thesis using d(1) by (simp add: ratgdo_loop_def)
qed
end
