(* ===== verification/RollingCodes.thy ===== *)
theory RollingCodes
  imports Controller
begin

text \<open>
  The rolling-code contract and its refinement.  The abstract specification is
  \<open>rolling_codes\<close>: the payloads a sequence of commands puts on the bus, each the
  encoding of the next counter value.  Each command of \<^verbatim>\<open>ratgdo.cpp\<close> extends
  the bus by such a sequence at its own counter (\<open>appends_codes\<close>), every step of the
  controller does, and so every run does from the counter read at boot; with an
  encoder that tells counter values apart no code repeats within a run below \<open>2^32\<close>
  codes.  A power cut inside the reboot synchronisation (\<open>syncCodes\<close> stopped
  before all six codes) breaks the contract across boots: the counter is persisted
  only after the whole sequence.
\<close>

text \<open>
  The rolling-code contract: the payloads a sequence of commands puts on the bus when
  the counter starts at \<open>c\<close>, each code encoding the next counter value.  A state
  \<open>s'\<close> extends \<open>s\<close> by such a sequence, started at the counter of \<open>s\<close>, when
  \<open>appends_codes\<close> holds.
\<close>

fun rolling_codes :: "config \<Rightarrow> 32 word \<Rightarrow> string list \<Rightarrow> byte list list" where
  "rolling_codes cfg c [] = []"
| "rolling_codes cfg c (command # cmds) =
     take (CODE_LENGTH cfg) (encodeRollingCode cfg command c) # rolling_codes cfg (c + 1) cmds"

definition appends_codes :: "config \<Rightarrow> 'a ratgdo_state_scheme \<Rightarrow> 'a ratgdo_state_scheme \<Rightarrow> bool" where
  "appends_codes cfg s s' \<longleftrightarrow>
     (\<exists>cs. payloads (out s') = payloads (out s) @ rolling_codes cfg (rollingCodeCounter s) cs
         \<and> rollingCodeCounter s' = rollingCodeCounter s + of_nat (length cs))"

text \<open>The encoder tells counter values apart: the property of the payload encoder that makes rolling codes unique.\<close>

definition code_injective :: "config \<Rightarrow> bool" where
  "code_injective cfg \<longleftrightarrow>
     (\<forall>a b c d. take (CODE_LENGTH cfg) (encodeRollingCode cfg a c) = take (CODE_LENGTH cfg) (encodeRollingCode cfg b d) \<longrightarrow> c = d)"

section \<open>The contract on the commands\<close>

lemma rolling_codes_append:
  "rolling_codes cfg c (xs @ ys) = rolling_codes cfg c xs @ rolling_codes cfg (c + of_nat (length xs)) ys"
  by (induction xs arbitrary: c) (simp_all add: algebra_simps)

lemma length_rolling_codes [simp]: "length (rolling_codes cfg c cs) = length cs"
  by (induction cs arbitrary: c) simp_all

lemma appends_codes_refl: "appends_codes cfg s s"
  by (auto simp: appends_codes_def intro: exI [of _ "[]"])

lemma appends_codes_trans:
  assumes "appends_codes cfg s s1" "appends_codes cfg s1 s2"
  shows "appends_codes cfg s s2"
proof -
  from assms(1) obtain cs1 where 1: "payloads (out s1) = payloads (out s) @ rolling_codes cfg (rollingCodeCounter s) cs1"
    "rollingCodeCounter s1 = rollingCodeCounter s + of_nat (length cs1)"
    by (auto simp: appends_codes_def)
  from assms(2) obtain cs2 where 2: "payloads (out s2) = payloads (out s1) @ rolling_codes cfg (rollingCodeCounter s1) cs2"
    "rollingCodeCounter s2 = rollingCodeCounter s1 + of_nat (length cs2)"
    by (auto simp: appends_codes_def)
  have "payloads (out s2) = payloads (out s) @ rolling_codes cfg (rollingCodeCounter s) (cs1 @ cs2)
      \<and> rollingCodeCounter s2 = rollingCodeCounter s + of_nat (length (cs1 @ cs2))"
    using 1 2 by (simp add: rolling_codes_append algebra_simps)
  then show ?thesis unfolding appends_codes_def by blast
qed

lemma appends_codes_same:
  "payloads (out s') = payloads (out s) \<Longrightarrow> rollingCodeCounter s' = rollingCodeCounter s \<Longrightarrow> appends_codes cfg s s'"
  by (auto simp: appends_codes_def intro: exI [of _ "[]"])

lemma openDoor_codes:
  assumes "useRollingCodes cfg" shows "appends_codes cfg s (openDoor cfg s)"
proof (cases "doorState s = Open \<or> doorState s = Opening")
  case True
  then show ?thesis by (simp add: openDoor_def appends_codes_refl)
next
  case False
  with assms have "payloads (out (openDoor cfg s)) = payloads (out s) @ rolling_codes cfg (rollingCodeCounter s) [''door1'', ''door2'']
     \<and> rollingCodeCounter (openDoor cfg s) = rollingCodeCounter s + of_nat (length [''door1'', ''door2''])"
    by (simp add: openDoor_def protocol_eqs effect_simps)
  then show ?thesis unfolding appends_codes_def by blast
qed

lemma closeDoor_codes:
  assumes "useRollingCodes cfg" shows "appends_codes cfg s (closeDoor cfg s)"
proof (cases "doorState s = Closed \<or> doorState s = Closing")
  case True
  then show ?thesis by (simp add: closeDoor_def appends_codes_refl)
next
  case False
  with assms have "payloads (out (closeDoor cfg s)) = payloads (out s) @ rolling_codes cfg (rollingCodeCounter s) [''door1'', ''door2'']
     \<and> rollingCodeCounter (closeDoor cfg s) = rollingCodeCounter s + of_nat (length [''door1'', ''door2''])"
    by (simp add: closeDoor_def protocol_eqs effect_simps)
  then show ?thesis unfolding appends_codes_def by blast
qed

lemma toggleLight_codes:
  assumes "useRollingCodes cfg" shows "appends_codes cfg s (toggleLight cfg s)"
proof -
  from assms have "payloads (out (toggleLight cfg s)) = payloads (out s) @ rolling_codes cfg (rollingCodeCounter s) [''light'']
     \<and> rollingCodeCounter (toggleLight cfg s) = rollingCodeCounter s + of_nat (length [''light''])"
    by (simp add: toggleLight_def protocol_eqs effect_simps)
  then show ?thesis unfolding appends_codes_def by blast
qed

lemma sync_codes:
  assumes "useRollingCodes cfg" shows "appends_codes cfg s (sync cfg s)"
proof -
  let ?cs = "[''reboot1'', ''reboot2'', ''reboot3'', ''reboot4'', ''reboot5'', ''reboot6'']"
  from assms have "payloads (out (sync cfg s)) = payloads (out s) @ rolling_codes cfg (rollingCodeCounter s) ?cs
     \<and> rollingCodeCounter (sync cfg s) = rollingCodeCounter s + of_nat (length ?cs)"
    by (simp add: sync_def syncCodes_def protocol_eqs effect_simps ac_simps)
  then show ?thesis unfolding appends_codes_def by blast
qed
lemma nth_rolling_codes:
  "i < length cs \<Longrightarrow> rolling_codes cfg c cs ! i = take (CODE_LENGTH cfg) (encodeRollingCode cfg (cs ! i) (c + of_nat i))"
  by (induction cs arbitrary: c i) (auto simp: nth_Cons' algebra_simps)

lemma counter_offsets_distinct:
  "i < 2 ^ 32 \<Longrightarrow> j < 2 ^ 32 \<Longrightarrow> (c::32 word) + of_nat i = c + of_nat j \<Longrightarrow> i = j"
  by (simp add: word_of_nat_eq_iff take_bit_nat_eq_self)

lemma distinct_rolling_codes:
  assumes "code_injective cfg" "length cs \<le> 2 ^ 32"
  shows "distinct (rolling_codes cfg c cs)"
proof (subst distinct_conv_nth, intro allI impI)
  fix i j assume ij: "i < length (rolling_codes cfg c cs)" "j < length (rolling_codes cfg c cs)" "i \<noteq> j"
  show "rolling_codes cfg c cs ! i \<noteq> rolling_codes cfg c cs ! j"
  proof
    assume "rolling_codes cfg c cs ! i = rolling_codes cfg c cs ! j"
    with ij have "take (CODE_LENGTH cfg) (encodeRollingCode cfg (cs ! i) (c + of_nat i))
        = take (CODE_LENGTH cfg) (encodeRollingCode cfg (cs ! j) (c + of_nat j))"
      by (simp add: nth_rolling_codes)
    with assms(1) have "c + of_nat i = c + of_nat j"
      unfolding code_injective_def by blast
    with ij assms(2) have "i = j" by (simp add: counter_offsets_distinct)
    with ij(3) show False ..
  qed
qed

section \<open>The contract on the controller\<close>

text \<open>Every step of the controller extends the bus by a rolling-code sequence that starts at its counter.\<close>

lemma appends_codes_capture_frame:
  assumes "out (s'::ratgdo_state) = out s" "capture_state.more s' = capture_state.more s"
  shows "appends_codes cfg s s'"
  using assms(1) capture_more_fields [OF assms(2)] by (intro appends_codes_same) simp_all

lemma appends_codes_obstructionLoop: "appends_codes cfg (s::ratgdo_state) (obstructionLoop cfg t rd s)"
  using passes_keep_codes [of cfg t rd s] by (intro appends_codes_same) simp_all

lemma appends_codes_doorStateLoop: "appends_codes cfg (s::ratgdo_state) (doorStateLoop cfg t rd s)"
  using passes_keep_codes [of cfg t rd s] by (intro appends_codes_same) simp_all

lemma appends_codes_flag:
  "appends_codes cfg (s\<lparr>dryContactDoorOpen := b\<rparr>) s' = appends_codes cfg s s'"
  "appends_codes cfg (s\<lparr>dryContactDoorClose := b\<rparr>) s' = appends_codes cfg s s'"
  "appends_codes cfg (s\<lparr>dryContactToggleLight := b\<rparr>) s' = appends_codes cfg s s'"
  by (simp_all add: appends_codes_def)

lemma appends_codes_dryContactLoop:
  assumes "useRollingCodes cfg" shows "appends_codes cfg s (dryContactLoop cfg s)"
proof -
  let ?s1 = "if dryContactDoorOpen s then openDoor cfg (s\<lparr>dryContactDoorOpen := False\<rparr>) else s"
  let ?s2 = "if dryContactDoorClose ?s1 then closeDoor cfg (?s1\<lparr>dryContactDoorClose := False\<rparr>) else ?s1"
  have 1: "appends_codes cfg s ?s1"
    using openDoor_codes [OF assms, of "s\<lparr>dryContactDoorOpen := False\<rparr>"] by (simp add: appends_codes_flag appends_codes_refl)
  have 2: "appends_codes cfg ?s1 ?s2"
    using closeDoor_codes [OF assms, of "?s1\<lparr>dryContactDoorClose := False\<rparr>"] by (simp add: appends_codes_flag appends_codes_refl)
  have 3: "appends_codes cfg ?s2 (dryContactLoop cfg s)"
    using toggleLight_codes [OF assms, of "?s2\<lparr>dryContactToggleLight := False\<rparr>"] unfolding dryContactLoop_def Let_def
    by (simp add: appends_codes_flag appends_codes_refl)
  from 1 2 3 show ?thesis by (blast intro: appends_codes_trans)
qed
lemma appends_codes_isr:
  "appends_codes cfg (s::ratgdo_state) (isrDebounce type t rd s)" "appends_codes cfg s (isrRPM1 s)"
  "appends_codes cfg s (isrRPM2 t rd s)" "appends_codes cfg s (isrObstruction t rd s)"
  by (rule appends_codes_capture_frame; simp add: isrDebounce_frame isrRPM_frame isrObstruction_frame)+

lemma appends_codes_step:
  assumes "useRollingCodes cfg" shows "appends_codes cfg s (ratgdo_step cfg s e)"
proof (cases e)
  case (EvLoop t rd)
  have "appends_codes cfg s (ratgdo_loop cfg t rd s)"
    unfolding ratgdo_loop_def
    by (rule appends_codes_trans [OF appends_codes_trans [OF appends_codes_obstructionLoop
          appends_codes_doorStateLoop] appends_codes_dryContactLoop [OF assms]])
  with EvLoop show ?thesis by simp
qed (simp_all add: isrDoorOpen_def isrDoorClose_def isrLight_def appends_codes_isr)

lemma reachable_appends_codes:
  "reachable cfg stored s \<Longrightarrow> useRollingCodes cfg \<Longrightarrow>
   appends_codes cfg (readCounterFromFlash (power_on stored)) s"
proof (induction rule: reachable.induct)
  case (boot cfg stored)
  then show ?case by (simp add: ratgdo_setup_def sync_codes)
next
  case (step cfg stored s e)
  then show ?case by (blast intro: appends_codes_trans appends_codes_step)
qed

section \<open>Power cuts\<close>

lemma take_rolling_codes: "take k (rolling_codes cfg c cs) = rolling_codes cfg c (take k cs)"
  by (induction cs arbitrary: c k) (simp_all add: take_Cons')

lemma send_codes:
  "payloads (out (foldl (\<lambda>s command. delay 45 (sendRollingCode cfg command s)) s cs))
     = payloads (out s) @ rolling_codes cfg (rollingCodeCounter s) cs
   \<and> flashCounter (foldl (\<lambda>s command. delay 45 (sendRollingCode cfg command s)) s cs) = flashCounter s"
  by (induction cs arbitrary: s) (simp_all add: protocol_eqs effect_simps algebra_simps)

lemma boot_codes:
  assumes "useRollingCodes cfg"
  shows "payloads (out (ratgdo_setup cfg (power_on stored)))
     = rolling_codes cfg stored [''reboot1'', ''reboot2'', ''reboot3'', ''reboot4'', ''reboot5'', ''reboot6'']"
proof -
  let ?R = "[''reboot1'', ''reboot2'', ''reboot3'', ''reboot4'', ''reboot5'', ''reboot6'']"
  let ?F = "\<lambda>s command. delay 45 (sendRollingCode cfg command s)"
  let ?s0 = "readCounterFromFlash (power_on stored)"
  have "ratgdo_setup cfg (power_on stored) = writeCounterToFlash (foldl ?F ?s0 ?R)"
    using assms by (simp add: ratgdo_setup_def sync_def syncCodes_def del: foldl_Cons take_Cons_numeral)
  moreover have "payloads (out (foldl ?F ?s0 ?R)) = rolling_codes cfg stored ?R"
    using send_codes [of cfg ?s0 ?R] by (simp add: readCounterFromFlash_def power_on_def del: foldl_Cons rolling_codes.simps)
  ultimately show ?thesis by (simp add: writeCounterToFlash_eq del: foldl_Cons rolling_codes.simps)
qed

section \<open>Properties of the contract\<close>

text \<open>
  C28: the rolling-code contract.  In rolling-code mode, the payloads sent in any
  reachable state are, in order, the encodings of the consecutive counter values
  \<open>stored, stored + 1, ...\<close> that start at the value read from flash at boot, one
  per code sent (with the command it encodes), and the in-memory counter is the next
  unused value.  So no counter value is sent twice within a run, and each code uses
  the counter value following the previous one.
\<close>

theorem reachable_rolling_codes:
  assumes "reachable cfg stored s" "useRollingCodes cfg"
  shows "\<exists>cs. payloads (out s) = rolling_codes cfg stored cs \<and> rollingCodeCounter s = stored + of_nat (length cs)"
  using reachable_appends_codes [OF assms]
  by (simp add: appends_codes_def readCounterFromFlash_def power_on_def)
text \<open>
  C29: a power cut during the reboot synchronisation replays counter values.  The
  counter is persisted once, after all six codes (line 435), not after each increment
  as the specification requires.  If power is lost after the first \<open>k\<close> codes of the
  boot synchronisation, those codes used the counter values \<open>stored, ...,
  stored + k - 1\<close>, the flash still holds \<open>stored\<close>, and the next boot sends the very
  same \<open>k\<close> payloads again, with the same commands and the same counter values.
\<close>

theorem power_cut_replays:
  assumes "useRollingCodes cfg"
  shows "payloads (out (syncCodes cfg k (readCounterFromFlash (power_on stored))))
           = rolling_codes cfg stored
               (take k [''reboot1'', ''reboot2'', ''reboot3'', ''reboot4'', ''reboot5'', ''reboot6''])
    \<and> flashCounter (syncCodes cfg k (readCounterFromFlash (power_on stored))) = stored
    \<and> take k (payloads (out (ratgdo_setup cfg
          (power_on (flashCounter (syncCodes cfg k (readCounterFromFlash (power_on stored))))))))
        = payloads (out (syncCodes cfg k (readCounterFromFlash (power_on stored))))"
proof -
  let ?R = "[''reboot1'', ''reboot2'', ''reboot3'', ''reboot4'', ''reboot5'', ''reboot6'']"
  have cut: "payloads (out (syncCodes cfg k (readCounterFromFlash (power_on stored))))
        = rolling_codes cfg stored (take k ?R)"
      "flashCounter (syncCodes cfg k (readCounterFromFlash (power_on stored))) = stored"
    using send_codes [of cfg "readCounterFromFlash (power_on stored)" "take k ?R"]
    by (simp_all add: syncCodes_def readCounterFromFlash_def power_on_def del: rolling_codes.simps)
  moreover have "take k (payloads (out (ratgdo_setup cfg (power_on stored)))) = rolling_codes cfg stored (take k ?R)"
    by (simp only: boot_codes [OF assms] take_rolling_codes)
  ultimately show ?thesis by simp
qed

text \<open>
  C30: no replay within a run.  If the encoder tells counter values apart, no payload
  is sent twice between two power cycles, as long as fewer than \<open>2^32\<close> codes have
  been sent (after that the 32-bit counter wraps).  Across a power cut the guarantee
  does not extend (C29).
\<close>

theorem reachable_no_replay:
  assumes "reachable cfg stored s" "useRollingCodes cfg" "code_injective cfg"
    "length (payloads (out s)) \<le> 2 ^ 32"
  shows "distinct (payloads (out s))"
proof -
  from reachable_appends_codes [OF assms(1,2)] obtain cs where
      cs: "payloads (out s) = rolling_codes cfg stored cs"
    by (auto simp: appends_codes_def readCounterFromFlash_def power_on_def)
  with assms(4) have "length cs \<le> 2 ^ 32" by simp
  with assms(3) cs show ?thesis by (simp add: distinct_rolling_codes)
qed

end
