(* ===== verification/Spec2Isabelle.thy ===== *)
theory Spec2Isabelle
  imports RollingCodes
begin

text \<open>
  \<^bold>\<open>A verified model of the ratgdo garage-door controller.\<close>

  The program (\<^verbatim>\<open>src/components/ratgdo/ratgdo.cpp\<close>) is firmware for an
  ESP8266 that sits on the wall-button bus of a garage-door opener.  It has four
  parts that share a set of global variables: interrupt handlers that capture the
  dry-contact buttons, a two-channel encoder and the obstruction sensor; an
  obstruction classifier; a door motion state machine; and the command protocol that
  drives the opener's bus.  \<open>RATGDOComponent::loop\<close> runs the classifier, the state
  machine and the dry-contact dispatcher in that order; \<open>RATGDOComponent::setup\<close>
  loads the rolling-code counter and, in rolling-code mode, resynchronises the opener.

  \<^bold>\<open>Theories.\<close>
  \<^item> \<open>Platform\<close>: the 32-bit \<open>millis()\<close> clock (\<open>32 word\<close>, so every
    \<open>currentMillis - last\<close> wraps as in C), pins, the effect log (\<open>digitalWrite\<close>,
    \<open>delay\<close>, \<open>delayMicroseconds\<close>, serial writes, \<open>bootstrapManager.publish\<close>,
    counter stores), the configuration of the header, and the bus observations
    \<open>payloads\<close>, \<open>stores\<close>, \<open>framed\<close>.
  \<^item> \<open>Capture\<close>: \<open>isrDebounce\<close> and its wrappers \<open>isrDoorOpen\<close>,
    \<open>isrDoorClose\<close>, \<open>isrLight\<close>; \<open>isrRPM1\<close>, \<open>isrRPM2\<close>, \<open>isrObstruction\<close>.
  \<^item> \<open>Obstruction\<close>: \<open>obstructionLoop\<close> (the classification
    \<open>obstructionClassify\<close> followed by the window restart
    \<open>obstructionWindowEnd\<close>), \<open>obstructionDetected\<close>, \<open>obstructionCleared\<close>.
  \<^item> \<open>DoorState\<close>: \<open>doorStateLoop\<close>, as the composition of its four sections
    \<open>reedSwitchStep\<close>, \<open>encoderSample\<close>, \<open>directionDetect\<close>, \<open>stopDetect\<close>.
  \<^item> \<open>Protocol\<close>: \<open>transmit\<close>, \<open>sync\<close>, \<open>openDoor\<close>, \<open>closeDoor\<close>,
    \<open>toggleLight\<close>, \<open>sendDoorStatus\<close>, \<open>sendCurrentCounter\<close>, and the rolling-code
    collaborators of the header (\<open>getRollingCode\<close>, \<open>writeCounterToFlash\<close>,
    \<open>readCounterFromFlash\<close>), modelled from the specification.
  \<^item> \<open>Controller\<close>: \<open>dryContactLoop\<close>, \<open>ratgdo_loop\<close> (\<open>loop\<close>),
    \<open>ratgdo_setup\<close> (\<open>setup\<close>), the event datatype of one handler or one pass,
    \<open>ratgdo_step\<close>, and the inductive set \<open>reachable\<close> of states after a boot and
    any interleaving of events.
  \<^item> \<open>RollingCodes\<close>: the abstract rolling-code contract \<open>rolling_codes\<close> (the
    encodings of consecutive counter values), the relation \<open>appends_codes\<close> by which
    the commands and the controller refine it, and the replay of counter values
    after a power cut inside \<open>sync\<close>.

  \<^bold>\<open>State.\<close>  The globals and the function-local statics of the source are the
  fields of one record, built by extension in the order of the theories
  (\<open>io_state\<close>, \<open>capture_state\<close>, \<open>obst_state\<close>, \<open>door_rec\<close>,
  \<open>ratgdo_state\<close>); each operation is a function on the smallest record scheme it
  needs, so that it applies unchanged to the full state.  The door state string is a
  datatype of its six literals and \<open>Unknown\<close> for the initial value.

  \<^bold>\<open>Modelling choices.\<close>  Every call of \<open>millis()\<close> within one interrupt handler or
  one pass of the loop returns the same value (the parameter \<open>now\<close>): handlers and the
  two classifiers run for microseconds.  Interrupts are interleaved between handlers
  and passes, not inside a pass.  \<open>doorPositionCounter\<close> is an unbounded \<open>int\<close>: a
  32-bit overflow needs \<open>2^31\<close> accepted pulses at least 5 ms apart, and signed
  overflow has no defined C semantics to follow; \<open>obstructionLowCount\<close> is a \<open>nat\<close>
  for the same reason within one 50 ms window.  The rolling counter is a \<open>32 word\<close>.

  \<^bold>\<open>What is proved.\<close>
  \<^item> Capture: a burst of \<open>RPM2\<close> edges without \<open>RPM1\<close> moves the counter by at
    most one; edges within 5 ms are ignored; the debounce window (500, 10000) ms is
    measured correctly across a clock wrap; the 2 s start-up guard.
  \<^item> Obstruction: the clear, obstructed, asleep and noise branches of a window, and
    two defects: the 250 ms guard of \<open>obstructionDetected\<close> restarts on suppressed
    calls, and a low edge counted by \<open>isrObstruction\<close> between the classification
    and the reset of \<open>obstructionLowCount\<close> is lost (the one place where an interrupt
    inside a pass changes the outcome; the specification says the loop never writes
    what a handler mutates).  Over successive windows (\<open>obst_windows\<close>) a persisting
    obstruction is reported once when the windows are at most 250 ms apart; since
    \<open>obstructionDetected\<close> does not test \<open>doorIsObstructed\<close>, wider gaps re-announce it.
  \<^item> Door state machine: opening and closing with 5-pulse hysteresis and one
    notification per transition, stop detection once, the hysteresis band after every
    pass, the one-way encoder upgrade, the reed path, and over many passes
    (\<open>door_passes\<close>, each with the counter the interrupts left): a rising counter
    announces \<open>opening\<close> exactly once, however many pulses follow.
  \<^item> Protocol: guards, the exact bus traffic and counter updates of every command in
    both modes, two findings (the guards ignore the reed states and the door
    commands carry no direction), the publication of the counter by
    \<open>sendCurrentCounter\<close> (a retained decimal string of at most ten digits that reads
    back as the counter), and the fixed-code loop, which stops after exactly four
    passes.
  \<^item> Controller: an invariant of all reachable states (status outputs agree with the
    classified states, the flash holds the counter, in rolling-code mode the counter is
    the boot value plus the number of payloads sent, every bus payload is framed), the
    single consumption of dry-contact triggers; over all reachable states, the form of
    every effect (\<open>effect_ok\<close>: statuses
    retained and with the literals of their topic, only output pins written, payloads
    of at most \<open>CODE_LENGTH\<close> bytes), and progress of the state machine: once the
    encoder has been still for 250 ms, the next pass settles a moving door.
  \<^item> RollingCodes: one refinement lemma per command and per step; every run sends
    exactly the encodings of consecutive counter values from the one read at boot,
    and with an encoder that tells counter values apart (\<open>code_injective\<close>) no
    code is sent twice within a run while fewer than \<open>2^32\<close> have been sent (the
    32-bit counter wraps after that, which the specification does not cover).  Across
    power cycles the contract fails: \<open>sync\<close> persists the counter once, after its six
    codes, so a power cut after \<open>k\<close> of them (\<open>syncCodes cfg k\<close>) leaves the flash
    unchanged and the next boot resends the same \<open>k\<close> payloads; the specification
    asks for the counter to be persisted after every increment.  The same window
    exists inside \<open>openDoor\<close>, \<open>closeDoor\<close> and \<open>toggleLight\<close> (stores at lines
    457, 489, 506), which is not modelled: power cuts are modelled only inside the boot
    synchronisation.
  \<^item> Here: the stale stop detection that reports an optimistic \<open>opening\<close> as
    \<open>open\<close> before the door moves; the encoder path end to end (paced encoder
    cycles, \<open>rpm_cycles\<close> in \<open>Capture\<close>, then one loop pass report \<open>opening\<close>);
    the open button end to end (a debounced press, then one loop pass, sends exactly
    the \<open>door1\<close>, \<open>door2\<close> codes at the next two counter values);
    and a witness for every theorem with hypotheses,
    on the configuration \<open>demo_cfg\<close> (and \<open>bit_cfg\<close>, whose encoder writes the
    32 bits of the counter, for the no-replay theorem).

  \<^bold>\<open>Not modelled.\<close>  \<open>pinMode\<close>, \<open>attachInterrupt\<close> and \<open>LittleFS.begin\<close>
  (configuration: the interrupt wiring is the event datatype), \<open>ESP_LOGD\<close> logging
  (no effect on the state), and the internals of the payload encoder, which the
  specification treats as an opaque collaborator (a parameter of the configuration,
  with \<open>code_injective\<close> as its only assumed property, and that only where stated).
  The persistence and platform collaborators are outside \<^verbatim>\<open>src/\<close>: their
  operations are modelled from the specification as effects and fields (the flash as
  \<open>flashCounter\<close>, writes and publications in the effect log), not their
  implementations.  Every function of \<^verbatim>\<open>ratgdo.cpp\<close> is modelled; the lines the
  map leaves out are comments, includes and namespace braces.

  \<^bold>\<open>Termination.\<close>  The loops of the source are the \<open>for\<close> over the four sync codes
  (in \<open>openDoor\<close>, \<open>closeDoor\<close>, \<open>toggleLight\<close>), kept as a loop:
  \<open>syncCodeLoop\<close> is a \<open>while_option\<close> over the pair of index and state, shown to
  stop after exactly four passes with the four sync frames
  (\<open>syncCodeLoop_four_passes\<close>); the six reboot codes of \<open>sync\<close>, written out in the
  source, are a \<open>foldl\<close> over the literal list (\<open>syncCodes\<close>); the digit loop of \<open>String\<close> is the structural \<open>decimal\<close>.  The main
  loop's infinite repetition is the relation \<open>reachable\<close>.

  \<^bold>\<open>Plan.\<close>  Still to do: the symmetric multi-pass statement for
  \<open>closing\<close>; the obstruction clearing over windows when pulses resume;
  encoder traces that interleave the two channels irregularly (bounce on \<open>RPM1\<close>).
\<close>

text \<open>The configuration the witnesses run on: rolling codes, publication enabled.\<close>

definition demo_cfg :: config where
  "demo_cfg =
     \<lparr>useRollingCodes = True, isConfigFileOk = True, CODE_LENGTH = 19,
      SYNC_CODE = (\<lambda>i. [of_nat i]), DOOR_CODE = [1], LIGHT_CODE = [2],
      encodeRollingCode = (\<lambda>command c. [ucast c])\<rparr>"

text \<open>
  A configuration whose encoder tells counter values apart: each of the 32 bytes
  of a code is one bit of the counter.
\<close>

definition bit_encoder :: "string \<Rightarrow> 32 word \<Rightarrow> byte list" where
  "bit_encoder command c = map (\<lambda>n. if bit c n then 1 else 0) [0..<32]"

definition bit_cfg :: config where
  "bit_cfg = demo_cfg\<lparr>CODE_LENGTH := 32, encodeRollingCode := bit_encoder\<rparr>"

text \<open>
  A reachable state with the door closing: after boot, six encoder cycles downwards
  (\<open>RPM1\<close> high) and one pass of the loop.
\<close>

definition closing_demo :: ratgdo_state where
  "closing_demo = ratgdo_run demo_cfg (ratgdo_setup demo_cfg (power_on 100))
     (concat (map (\<lambda>t. [EvRPM1, EvRPM2 t (\<lambda>p. p = INPUT_RPM1)]) [3000, 3010, 3020, 3030, 3040, 3050])
      @ [EvLoop 3100 (\<lambda>p. p = INPUT_RPM1)])"

text \<open>
  C20: the optimistic update of \<open>openDoor\<close> is undone by stale stop detection: when
  the encoder has been still for more than 250 ms, the pass right after an open
  command on a closed door reports the door \<open>open\<close>, publishes it and drives the
  status output high, although no encoder pulse has shown any motion.
\<close>

theorem open_reported_before_motion:
  assumes "rotaryEncoderDetected s" "doorState s = Closed"
    "doorPositionCounter s = lastDoorPositionCounter s"
    "\<bar>doorPositionCounter s - lastDirectionChangeCounter s\<bar> \<le> 5"
    "now - lastCounterMillis s > 250"
  shows "doorState (doorStateLoop cfg now rd (openDoor cfg s)) = Open
    \<and> out (doorStateLoop cfg now rd (openDoor cfg s))
        = out (openDoor cfg s) @ status_msgs cfg doorStatusTopic ''open'' @ [DigitalWrite STATUS_DOOR HIGH]"
  using assms by (simp add: openDoor_def Let_def protocol_eqs effect_simps doorStateLoop_def door_sections)

text \<open>
  C33: the encoder path end to end, across the capture layer, the state machine and
  the main loop.  Once the encoder drives the state, more than ten full encoder cycles
  with \<open>RPM1\<close> low, each \<open>RPM2\<close> edge at least 5 ms after the previous one, followed
  by one pass of the loop with no dry-contact request pending, leave the door
  \<open>opening\<close>, and the \<open>opening\<close> status is the last thing the pass logs (after
  whatever the obstruction classifier logged).
\<close>

theorem encoder_reports_opening:
  assumes "rotaryEncoderDetected s" "doorState s \<noteq> Opening"
    "doorPositionCounter s = lastDoorPositionCounter s"
    "\<bar>lastDirectionChangeCounter s - lastDoorPositionCounter s\<bar> \<le> 5"
    "paced (lastPulse s) ts" "10 < length ts" "rd INPUT_RPM1 = LOW"
    "\<not> dryContactDoorOpen s" "\<not> dryContactDoorClose s" "\<not> dryContactToggleLight s"
  shows "doorState (ratgdo_run cfg s (concat (map (\<lambda>t. [EvRPM1, EvRPM2 t rd]) ts) @ [EvLoop now rd'])) = Opening
    \<and> (\<exists>es. out (ratgdo_run cfg s (concat (map (\<lambda>t. [EvRPM1, EvRPM2 t rd]) ts) @ [EvLoop now rd']))
            = out s @ es @ status_msgs cfg doorStatusTopic ''opening'')"
proof -
  let ?s1 = "rpm_cycles rd ts s"
  let ?s2 = "obstructionLoop cfg now rd' ?s1"
  have c1: "doorPositionCounter ?s1 = doorPositionCounter s + int (length ts)"
    using rpm_cycles_counter [OF assms(5)] assms(7) by simp
  have f1: "out ?s1 = out s" "capture_state.more ?s1 = capture_state.more s"
    "\<not> dryContactDoorOpen ?s1" "\<not> dryContactDoorClose ?s1" "\<not> dryContactToggleLight ?s1"
    using rpm_cycles_frame [of rd ts s] assms(8-10) by simp_all
  from f1(2) have d1: "rotaryEncoderDetected ?s1 = rotaryEncoderDetected s" "doorState ?s1 = doorState s"
    "lastDoorPositionCounter ?s1 = lastDoorPositionCounter s"
    "lastDirectionChangeCounter ?s1 = lastDirectionChangeCounter s"
    by (cases s, cases ?s1, simp)+
  have d2: "rotaryEncoderDetected ?s2 = rotaryEncoderDetected s" "doorState ?s2 = doorState s"
    "lastDoorPositionCounter ?s2 = lastDoorPositionCounter s"
    "lastDirectionChangeCounter ?s2 = lastDirectionChangeCounter s"
    using obstructionLoop_door_fields [of cfg now rd' ?s1] d1 by simp_all
  obtain es where c2: "doorPositionCounter ?s2 = doorPositionCounter ?s1" "out ?s2 = out s @ es"
    "\<not> dryContactDoorOpen ?s2" "\<not> dryContactDoorClose ?s2" "\<not> dryContactToggleLight ?s2"
    using obstructionLoop_capture [of cfg now rd' ?s1] f1 by auto
  have moved: "doorPositionCounter ?s2 \<noteq> lastDoorPositionCounter ?s2"
    and above: "doorPositionCounter ?s2 - lastDirectionChangeCounter ?s2 > 5"
    using assms(3,4,6) c1 c2(1) d2 by auto
  have step: "doorStateLoop cfg now rd' ?s2 =
     ?s2\<lparr>out := out ?s2 @ status_msgs cfg doorStatusTopic ''opening'',
       doorState := Opening, rotaryEncoderDetected := True, lastCounterMillis := now,
       lastDirectionChangeCounter := doorPositionCounter ?s2,
       lastDoorPositionCounter := doorPositionCounter ?s2\<rparr>"
    using assms(1,2) d2(1,2) moved above by (simp add: doorStateLoop_def door_sections)
  have "ratgdo_run cfg s (concat (map (\<lambda>t. [EvRPM1, EvRPM2 t rd]) ts) @ [EvLoop now rd'])
      = dryContactLoop cfg (doorStateLoop cfg now rd' ?s2)"
    by (simp add: ratgdo_run_def ratgdo_run_encoder [unfolded ratgdo_run_def] ratgdo_loop_def)
  also have "\<dots> = doorStateLoop cfg now rd' ?s2"
    using doorStateLoop_flags [of cfg now rd' ?s2] c2(3-5) by (simp add: dryContactLoop_idle)
  finally show ?thesis using step c2(2) by simp
qed
theorem doorStateLoop_opening_witness:
  "rotaryEncoderDetected (power_on 100\<lparr>rotaryEncoderDetected := True, doorPositionCounter := 7, doorState := Closed\<rparr>)
   \<and> doorState (doorStateLoop demo_cfg 1000 (\<lambda>_. LOW)
        (power_on 100\<lparr>rotaryEncoderDetected := True, doorPositionCounter := 7, doorState := Closed\<rparr>)) = Opening"
proof -
  let ?s = "power_on 100\<lparr>rotaryEncoderDetected := True, doorPositionCounter := 7, doorState := Closed\<rparr>"
  have h: "rotaryEncoderDetected ?s" "doorPositionCounter ?s \<noteq> lastDoorPositionCounter ?s"
    "doorPositionCounter ?s - lastDirectionChangeCounter ?s > 5"
    by (simp_all add: power_on_def)
  show ?thesis using h DoorState.doorStateLoop_opening [OF h, of demo_cfg 1000 "\<lambda>_. LOW"] by simp
qed

theorem open_reported_before_motion_witness:
  "doorState (doorStateLoop demo_cfg 1000 (\<lambda>_. LOW)
      (openDoor demo_cfg (power_on 100\<lparr>rotaryEncoderDetected := True, doorState := Closed\<rparr>))) = Open"
proof -
  let ?s = "power_on 100\<lparr>rotaryEncoderDetected := True, doorState := Closed\<rparr>"
  have h: "rotaryEncoderDetected ?s" "doorState ?s = Closed"
    "doorPositionCounter ?s = lastDoorPositionCounter ?s"
    "\<bar>doorPositionCounter ?s - lastDirectionChangeCounter ?s\<bar> \<le> 5"
    "(1000::ms) - lastCounterMillis ?s > 250"
    by (simp_all add: power_on_def)
  show ?thesis using open_reported_before_motion [OF h, of demo_cfg "\<lambda>_. LOW"] by simp
qed

theorem reachable_outputs_and_counter_witness:
  "reachable demo_cfg 100 (ratgdo_setup demo_cfg (power_on 100))
   \<and> rollingCodeCounter (ratgdo_setup demo_cfg (power_on 100)) = 106"
proof -
  have r: "reachable demo_cfg 100 (ratgdo_setup demo_cfg (power_on 100))" by (rule reachable.boot)
  have "rollingCodeCounter (ratgdo_setup demo_cfg (power_on 100)) =
        100 + (if useRollingCodes demo_cfg then of_nat (length (payloads (out (ratgdo_setup demo_cfg (power_on 100))))) else 0)"
    using Controller.reachable_outputs_and_counter [OF r] by simp
  moreover have "length (payloads (out (ratgdo_setup demo_cfg (power_on 100)))) = 6"
    by (simp add: ratgdo_setup_def sync_def syncCodes_def power_on_def readCounterFromFlash_def demo_cfg_def protocol_eqs effect_simps)
  ultimately show ?thesis using r by (simp add: demo_cfg_def)
qed

theorem doorStateLoop_closed_once_witness:
  "doorState (doorStateLoop demo_cfg 1000 (\<lambda>_. LOW)
      (power_on 100\<lparr>rotaryEncoderDetected := True, doorState := Closing\<rparr>)) = Closed"
proof -
  let ?s = "power_on 100\<lparr>rotaryEncoderDetected := True, doorState := Closing\<rparr>"
  have h: "rotaryEncoderDetected ?s" "doorPositionCounter ?s = lastDoorPositionCounter ?s"
    "\<bar>doorPositionCounter ?s - lastDirectionChangeCounter ?s\<bar> \<le> 5"
    "(1000::ms) - lastCounterMillis ?s > 250" "doorState ?s = Closing"
    by (simp_all add: power_on_def)
  show ?thesis using DoorState.doorStateLoop_closed_once [OF h, of demo_cfg "\<lambda>_. LOW" 2000 "\<lambda>_. LOW"] by simp
qed

theorem isrRPM2_oversampling_guard_witness:
  "doorPositionCounter (isrRPM2 1003 (\<lambda>_. LOW) (power_on 100\<lparr>lastPulse := 1000, rpm1Pulsed := True\<rparr>)) = 0"
proof -
  let ?s = "power_on 100\<lparr>lastPulse := 1000, rpm1Pulsed := True\<rparr>"
  have h: "(1003::ms) - lastPulse ?s < 5" by (simp add: power_on_def)
  show ?thesis using Capture.isrRPM2_oversampling_guard [OF h, of "\<lambda>_. LOW"] by (simp add: power_on_def)
qed

text \<open>A wrap-around of \<open>millis()\<close> between the two edges: the falling edge 296 ms before the wrap, the rising edge 2504 ms after it.\<close>

theorem dry_contact_open_window_witness:
  "dryContactDoorOpen (isrDoorOpen (4294967000 + 2800) (\<lambda>_. HIGH) (isrDoorOpen 4294967000 (\<lambda>_. LOW) (power_on 100)))"
proof -
  have h: "2000 \<le> (4294967000::ms)" "2000 \<le> (4294967000::ms) + 2800"
    "(\<lambda>_. LOW) TRIGGER_OPEN = LOW" "(\<lambda>_. HIGH) TRIGGER_OPEN = HIGH"
    by simp_all
  show ?thesis using Capture.dry_contact_open_window [OF h, of "power_on 100"] by simp
qed

theorem obstructionLoop_clears_witness:
  "\<not> doorIsObstructed (obstructionLoop demo_cfg 100 (\<lambda>_. HIGH)
      (power_on 100\<lparr>obstructionLowCount := 5, doorIsObstructed := True\<rparr>))"
proof -
  let ?s = "power_on 100\<lparr>obstructionLowCount := 5, doorIsObstructed := True\<rparr>"
  have h: "(100::ms) - lastMillis ?s > 50" "3 \<le> obstructionLowCount ?s"
    "obstructionLowCount ?s \<le> 8" "doorIsObstructed ?s"
    by (simp_all add: power_on_def)
  show ?thesis using Obstruction.obstructionLoop_clears [OF h, of demo_cfg "\<lambda>_. HIGH"] by simp
qed

theorem obstructionLoop_detects_witness:
  "doorIsObstructed (obstructionLoop demo_cfg 400 (\<lambda>_. HIGH) (power_on 100))"
proof -
  have h: "(400::ms) - lastMillis (power_on 100) > 50" "obstructionLowCount (power_on 100) = 0"
    "(\<lambda>_. HIGH) INPUT_OBST = HIGH" "(400::ms) - lastObstructionHigh (power_on 100) > 70"
    "(400::ms) - lastInterruptTime (power_on 100) > 250"
    by (simp_all add: power_on_def)
  show ?thesis using Obstruction.obstructionLoop_detects [OF h, of demo_cfg] by simp
qed

theorem obstruction_retrigger_suppressed_witness:
  "\<not> doorIsObstructed (detect_calls demo_cfg [100, 300, 500] (power_on 100))
   \<and> out (detect_calls demo_cfg [100, 300, 500] (power_on 100)) = []"
proof -
  have h: "spaced_calls (lastInterruptTime (power_on 100)) [100, 300, 500]"
    by (simp add: power_on_def)
  show ?thesis using Obstruction.obstruction_retrigger_suppressed [OF h, of demo_cfg]
    by (simp add: power_on_def)
qed

theorem openDoor_guard_witness:
  "openDoor demo_cfg (power_on 100\<lparr>doorState := Open\<rparr>) = power_on 100\<lparr>doorState := Open\<rparr>"
proof -
  have h: "doorState (power_on 100\<lparr>doorState := Open\<rparr>) = Open \<or> doorState (power_on 100\<lparr>doorState := Open\<rparr>) = Opening"
    by simp
  show ?thesis using Protocol.openDoor_guard [OF h, of demo_cfg] .
qed

theorem openDoor_rolling_witness:
  "rollingCodeCounter (openDoor demo_cfg (power_on 100\<lparr>doorState := Closed\<rparr>)) = 2
   \<and> flashCounter (openDoor demo_cfg (power_on 100\<lparr>doorState := Closed\<rparr>)) = 2"
proof -
  let ?s = "power_on 100\<lparr>doorState := Closed\<rparr>"
  have h: "useRollingCodes demo_cfg" "doorState ?s \<noteq> Open" "doorState ?s \<noteq> Opening"
    by (simp_all add: demo_cfg_def)
  show ?thesis using Protocol.openDoor_rolling [OF h] by (simp add: power_on_def)
qed

theorem sync_rolling_witness:
  "rollingCodeCounter (sync demo_cfg (power_on 100)) = 6 \<and> flashCounter (sync demo_cfg (power_on 100)) = 6"
proof -
  have h: "useRollingCodes demo_cfg" by (simp add: demo_cfg_def)
  show ?thesis using Protocol.sync_rolling [OF h, of "power_on 100"] by (simp add: power_on_def)
qed

theorem reachable_bus_framed_witness:
  "framed (out (ratgdo_step demo_cfg (ratgdo_setup demo_cfg (power_on 100)) EvRPM1))"
proof -
  have r: "reachable demo_cfg 100 (ratgdo_step demo_cfg (ratgdo_setup demo_cfg (power_on 100)) EvRPM1)"
    by (rule reachable.step [OF reachable.boot])
  show ?thesis using Controller.reachable_bus_framed [OF r] .
qed

theorem doorStateLoop_encoder_one_way_witness:
  "rotaryEncoderDetected (doorStateLoop demo_cfg 0 (\<lambda>_. LOW) (power_on 100\<lparr>rotaryEncoderDetected := True\<rparr>))"
proof -
  have h: "rotaryEncoderDetected (power_on 100\<lparr>rotaryEncoderDetected := True\<rparr>)" by simp
  show ?thesis using DoorState.doorStateLoop_encoder_one_way [OF h, of demo_cfg 0 "\<lambda>_. LOW" "\<lambda>_. LOW"] by simp
qed

theorem doorStateLoop_closing_witness:
  "doorState (doorStateLoop demo_cfg 1000 (\<lambda>_. LOW)
      (power_on 100\<lparr>rotaryEncoderDetected := True, doorPositionCounter := -7\<rparr>)) = Closing"
proof -
  let ?s = "power_on 100\<lparr>rotaryEncoderDetected := True, doorPositionCounter := -7\<rparr>"
  have h: "rotaryEncoderDetected ?s" "doorPositionCounter ?s \<noteq> lastDoorPositionCounter ?s"
    "lastDirectionChangeCounter ?s - doorPositionCounter ?s > 5"
    by (simp_all add: power_on_def)
  show ?thesis using DoorState.doorStateLoop_closing [OF h, of demo_cfg 1000 "\<lambda>_. LOW"] by simp
qed

theorem reed_open_close_same_traffic_witness:
  "out (openDoor demo_cfg (power_on 100\<lparr>doorState := Reed_open\<rparr>))
   = out (closeDoor demo_cfg (power_on 100\<lparr>doorState := Reed_open\<rparr>))
   \<and> out (openDoor demo_cfg (power_on 100\<lparr>doorState := Reed_open\<rparr>)) \<noteq> []"
proof -
  have h: "doorState (power_on 100\<lparr>doorState := Reed_open\<rparr>) \<in> {Reed_open, Reed_closed, Unknown}" by simp
  have eq: "out (openDoor demo_cfg (power_on 100\<lparr>doorState := Reed_open\<rparr>))
      = out (closeDoor demo_cfg (power_on 100\<lparr>doorState := Reed_open\<rparr>))"
    using Protocol.reed_open_close_same_traffic [OF h, of demo_cfg] by blast
  have "out (openDoor demo_cfg (power_on 100\<lparr>doorState := Reed_open\<rparr>)) \<noteq> []"
    by (simp add: openDoor_def demo_cfg_def power_on_def protocol_eqs effect_simps)
  with eq show ?thesis by blast
qed

theorem doorStateLoop_reed_closed_witness:
  "pin_out (doorStateLoop demo_cfg 0 (\<lambda>_. LOW) (power_on 100)) STATUS_DOOR = HIGH"
proof -
  have h: "\<not> rotaryEncoderDetected (power_on 100)"
    "doorPositionCounter (power_on 100) = lastDoorPositionCounter (power_on 100)"
    "\<bar>doorPositionCounter (power_on 100) - lastDirectionChangeCounter (power_on 100)\<bar> \<le> 5"
    "(\<lambda>_. LOW) INPUT_RPM1 = LOW" "doorState (power_on 100) \<noteq> Reed_closed"
    by (simp_all add: power_on_def)
  show ?thesis using DoorState.doorStateLoop_reed_closed [OF h, of demo_cfg 0] by simp
qed

theorem toggleLight_rolling_witness:
  "rollingCodeCounter (toggleLight demo_cfg (power_on 100)) = 1"
proof -
  have h: "useRollingCodes demo_cfg" by (simp add: demo_cfg_def)
  show ?thesis using Protocol.toggleLight_rolling [OF h, of "power_on 100"] by (simp add: power_on_def)
qed

theorem open_close_direction_free_witness:
  "out (openDoor demo_cfg (power_on 100\<lparr>doorState := Closed\<rparr>))
   = out (closeDoor demo_cfg (power_on 100\<lparr>doorState := Closed\<rparr>\<lparr>doorState := Open\<rparr>))"
proof -
  have h: "doorState (power_on 100\<lparr>doorState := Closed\<rparr>) = Closed" by simp
  show ?thesis using Protocol.open_close_direction_free [OF h, of demo_cfg] by simp
qed

theorem obstructionLoop_asleep_witness:
  "obstructionLoop demo_cfg 100 (\<lambda>_. LOW) (power_on 100) = power_on 100\<lparr>lastMillis := 100\<rparr>"
proof -
  have h: "(100::ms) - lastMillis (power_on 100) > 50" "obstructionLowCount (power_on 100) = 0"
    "(\<lambda>_. LOW) INPUT_OBST = LOW"
    by (simp_all add: power_on_def)
  show ?thesis using Obstruction.obstructionLoop_asleep [OF h, of demo_cfg] by (simp add: power_on_def)
qed

theorem obstructionLoop_noise_witness:
  "obstructionLoop demo_cfg 100 (\<lambda>_. HIGH) (power_on 100\<lparr>obstructionLowCount := 2\<rparr>)
   = power_on 100\<lparr>lastMillis := 100\<rparr>"
proof -
  let ?s = "power_on 100\<lparr>obstructionLowCount := 2\<rparr>"
  have h: "(100::ms) - lastMillis ?s > 50" "obstructionLowCount ?s \<in> {1, 2} \<or> obstructionLowCount ?s > 8"
    by (simp_all add: power_on_def)
  show ?thesis using Obstruction.obstructionLoop_noise [OF h, of demo_cfg "\<lambda>_. HIGH"] by (simp add: power_on_def)
qed

theorem isrDebounce_startup_guard_witness:
  "isrDebounce ''openDoor'' 1000 (\<lambda>_. HIGH) (power_on 100) = power_on 100"
proof -
  have h: "(1000::ms) < 2000" by simp
  show ?thesis using Capture.isrDebounce_startup_guard [OF h] .
qed

theorem openDoor_fixed_witness:
  "rollingCodeCounter (openDoor (demo_cfg\<lparr>useRollingCodes := False\<rparr>) (power_on 100)) = 0
   \<and> doorState (openDoor (demo_cfg\<lparr>useRollingCodes := False\<rparr>) (power_on 100)) = Opening"
proof -
  have h: "\<not> useRollingCodes (demo_cfg\<lparr>useRollingCodes := False\<rparr>)"
    "doorState (power_on 100) \<noteq> Open" "doorState (power_on 100) \<noteq> Opening"
    by (simp_all add: power_on_def)
  show ?thesis using Protocol.openDoor_fixed [OF h] by (simp add: power_on_def)
qed
theorem reachable_rolling_codes_witness:
  "\<exists>cs. payloads (out (ratgdo_setup demo_cfg (power_on 100))) = rolling_codes demo_cfg 100 cs \<and> length cs = 6"
proof -
  have r: "reachable demo_cfg 100 (ratgdo_setup demo_cfg (power_on 100))" by (rule reachable.boot)
  have u: "useRollingCodes demo_cfg" by (simp add: demo_cfg_def)
  obtain cs where cs: "payloads (out (ratgdo_setup demo_cfg (power_on 100))) = rolling_codes demo_cfg 100 cs"
    using RollingCodes.reachable_rolling_codes [OF r u] by blast
  moreover have "length (payloads (out (ratgdo_setup demo_cfg (power_on 100)))) = 6"
    by (simp add: ratgdo_setup_def sync_def syncCodes_def power_on_def readCounterFromFlash_def demo_cfg_def protocol_eqs effect_simps)
  ultimately show ?thesis by (metis length_rolling_codes)
qed

lemma bit_cfg_injective: "code_injective bit_cfg"
proof -
  have "c = d" if h: "bit_encoder a c = bit_encoder b d" for a b :: string and c d :: "32 word"
  proof (rule bit_word_eqI)
    fix n assume "n < LENGTH(32)"
    moreover from h have "bit_encoder a c ! n = bit_encoder b d ! n" by simp
    ultimately have "(if bit c n then 1 else 0 :: byte) = (if bit d n then 1 else 0)"
      by (simp add: bit_encoder_def)
    then show "bit c n = bit d n" by (auto split: if_splits)
  qed
  then show ?thesis by (simp add: code_injective_def bit_cfg_def bit_encoder_def)
qed

lemma boot_payloads:
  "useRollingCodes cfg \<Longrightarrow> length (payloads (out (ratgdo_setup cfg (power_on b)))) = 6"
  by (simp add: ratgdo_setup_def sync_def syncCodes_def power_on_def readCounterFromFlash_def protocol_eqs effect_simps)

theorem reachable_no_replay_witness:
  "distinct (payloads (out (ratgdo_setup bit_cfg (power_on 100))))"
proof -
  have u: "useRollingCodes bit_cfg" by (simp add: bit_cfg_def demo_cfg_def)
  have n: "length (payloads (out (ratgdo_setup bit_cfg (power_on 100)))) \<le> 2 ^ 32"
    by (simp add: boot_payloads [OF u])
  show ?thesis using RollingCodes.reachable_no_replay [OF reachable.boot u bit_cfg_injective n] .
qed

theorem power_cut_replays_witness:
  "take 1 (payloads (out (ratgdo_setup bit_cfg
       (power_on (flashCounter (syncCodes bit_cfg 1 (readCounterFromFlash (power_on 100))))))))
     = payloads (out (syncCodes bit_cfg 1 (readCounterFromFlash (power_on 100))))
   \<and> payloads (out (syncCodes bit_cfg 1 (readCounterFromFlash (power_on 100)))) \<noteq> []"
proof -
  have u: "useRollingCodes bit_cfg" by (simp add: bit_cfg_def demo_cfg_def)
  note r = RollingCodes.power_cut_replays [OF u, of 1 100]
  have "payloads (out (syncCodes bit_cfg 1 (readCounterFromFlash (power_on 100)))) \<noteq> []"
    using conjunct1 [OF r] by simp
  then show ?thesis using conjunct2 [OF conjunct2 [OF r]] by blast
qed

theorem sendCurrentCounter_publishes_witness:
  "\<exists>v. sendCurrentCounter demo_cfg (power_on 0\<lparr>rollingCodeCounter := 1234\<rparr>)
         = (power_on 0\<lparr>rollingCodeCounter := 1234\<rparr>)\<lparr>out := out (power_on 0\<lparr>rollingCodeCounter := 1234\<rparr>)
              @ [Publish rollingCodeTopic v True]\<rparr>
       \<and> parse_decimal v = 1234"
proof -
  have ok: "isConfigFileOk demo_cfg" by (simp add: demo_cfg_def)
  show ?thesis
    using Protocol.sendCurrentCounter_publishes [of demo_cfg "power_on 0\<lparr>rollingCodeCounter := 1234\<rparr>"] ok
    by auto
qed

theorem door_opening_once_witness:
  "doorState (door_passes demo_cfg (\<lambda>_. LOW) [(10, 3), (20, 7), (30, 12)]
      (power_on 0\<lparr>rotaryEncoderDetected := True, doorState := Closed\<rparr>)) = Opening
   \<and> out (door_passes demo_cfg (\<lambda>_. LOW) [(10, 3), (20, 7), (30, 12)]
      (power_on 0\<lparr>rotaryEncoderDetected := True, doorState := Closed\<rparr>))
     = status_msgs demo_cfg doorStatusTopic ''opening''"
proof -
  let ?s = "power_on 0\<lparr>rotaryEncoderDetected := True, doorState := Closed\<rparr>"
  let ?ps = "[(10, 3), (20, 7), (30, 12)] :: (ms \<times> int) list"
  have h: "rotaryEncoderDetected ?s" "doorState ?s \<noteq> Opening"
    "\<bar>lastDirectionChangeCounter ?s - lastDoorPositionCounter ?s\<bar> \<le> 5"
    "sorted_wrt (<) (lastDoorPositionCounter ?s # map snd ?ps)"
    "last (lastDoorPositionCounter ?s # map snd ?ps) - lastDirectionChangeCounter ?s > 5"
    by (simp_all add: power_on_def)
  show ?thesis using DoorState.door_opening_once [OF h, of demo_cfg "\<lambda>_. LOW"]
    by (simp add: power_on_def)
qed

theorem obstruction_edge_lost_witness:
  "obstructionWindowEnd 100 (isrObstruction 120 (\<lambda>_. LOW) (obstructionClassify demo_cfg 100 (\<lambda>_. LOW) (power_on 0)))
     = obstructionLoop demo_cfg 100 (\<lambda>_. LOW) (power_on 0)
   \<and> obstructionLowCount (isrObstruction 120 (\<lambda>_. LOW) (obstructionLoop demo_cfg 100 (\<lambda>_. LOW) (power_on 0))) = 1"
proof -
  have h: "100 - lastMillis (power_on 0) > 50" "LOW = LOW" by (simp_all add: power_on_def)
  show ?thesis using Obstruction.obstruction_edge_lost [of 100 "power_on 0" "\<lambda>_. LOW" 120 demo_cfg "\<lambda>_. LOW"] h
    by simp
qed

theorem encoder_reports_opening_witness:
  "doorState (ratgdo_run demo_cfg (power_on 0\<lparr>rotaryEncoderDetected := True, doorState := Closed\<rparr>)
     (concat (map (\<lambda>t. [EvRPM1, EvRPM2 t (\<lambda>_. LOW)]) [10, 20, 30, 40, 50, 60, 70, 80, 90, 100, 110])
      @ [EvLoop 120 (\<lambda>_. LOW)])) = Opening"
proof -
  let ?s = "power_on 0\<lparr>rotaryEncoderDetected := True, doorState := Closed\<rparr>"
  let ?ts = "[10, 20, 30, 40, 50, 60, 70, 80, 90, 100, 110] :: ms list"
  have h: "rotaryEncoderDetected ?s" "doorState ?s \<noteq> Opening"
    "doorPositionCounter ?s = lastDoorPositionCounter ?s"
    "\<bar>lastDirectionChangeCounter ?s - lastDoorPositionCounter ?s\<bar> \<le> 5"
    "paced (lastPulse ?s) ?ts" "10 < length ?ts" "(\<lambda>_. LOW) INPUT_RPM1 = LOW"
    "\<not> dryContactDoorOpen ?s" "\<not> dryContactDoorClose ?s" "\<not> dryContactToggleLight ?s"
    by (simp_all add: power_on_def)
  show ?thesis using encoder_reports_opening [OF h, of demo_cfg 120 "\<lambda>_. LOW"] by simp
qed

theorem reachable_effects_well_formed_witness:
  "list_all (effect_ok demo_cfg)
     (out (ratgdo_step demo_cfg (ratgdo_setup demo_cfg (power_on 100)) (EvLoop 3000 (\<lambda>_. LOW))))"
proof -
  have r: "reachable demo_cfg 100 (ratgdo_step demo_cfg (ratgdo_setup demo_cfg (power_on 100)) (EvLoop 3000 (\<lambda>_. LOW)))"
    by (rule reachable.step [OF reachable.boot])
  show ?thesis using Controller.reachable_effects_well_formed [OF r] .
qed

text \<open>
  C39: the dry-contact open button end to end, across the capture layer, the main
  loop and the command protocol.  In a reachable state driven by a still encoder,
  with the door neither open nor opening and no other request pending, a press of the
  open button (a falling edge, then a rising edge 500 to 10000 ms later, both outside
  the start-up guard) followed by one pass of the loop sends exactly the two rolling
  codes \<open>door1\<close>, \<open>door2\<close> at the next two counter values, and leaves the door
  \<open>opening\<close>.
\<close>

theorem button_press_opens:
  assumes "reachable cfg stored s" "useRollingCodes cfg" "rotaryEncoderDetected s"
    "doorPositionCounter s = lastDoorPositionCounter s" "doorState s \<noteq> Open" "doorState s \<noteq> Opening"
    "\<not> dryContactDoorClose s" "\<not> dryContactToggleLight s"
    "2000 \<le> t0" "2000 \<le> t0 + d" "500 < d" "d < 10000"
    "rd0 TRIGGER_OPEN = LOW" "rd1 TRIGGER_OPEN = HIGH"
  shows "payloads (out (ratgdo_run cfg s [EvDoorOpen t0 rd0, EvDoorOpen (t0 + d) rd1, EvLoop now rd]))
           = payloads (out s) @ rolling_codes cfg (rollingCodeCounter s) [''door1'', ''door2'']
    \<and> doorState (ratgdo_run cfg s [EvDoorOpen t0 rd0, EvDoorOpen (t0 + d) rd1, EvLoop now rd]) = Opening"
proof -
  let ?s1 = "s\<lparr>lastOpenDoorTime := t0, dryContactDoorOpen := True\<rparr>"
  let ?s2 = "obstructionLoop cfg now rd ?s1"
  let ?s3 = "doorStateLoop cfg now rd ?s2"
  have band: "\<bar>lastDirectionChangeCounter s - lastDoorPositionCounter s\<bar> \<le> 5"
    using reachable_inv [OF assms(1)] by (simp add: ratgdo_inv_def)
  have run: "ratgdo_run cfg s [EvDoorOpen t0 rd0, EvDoorOpen (t0 + d) rd1, EvLoop now rd] = dryContactLoop cfg ?s3"
    using isrDoorOpen_press [of t0 d rd0 rd1 s] assms(9-14) by (simp add: ratgdo_run_def ratgdo_loop_def)
  obtain es where c2: "doorPositionCounter ?s2 = doorPositionCounter s" "dryContactDoorOpen ?s2"
    "\<not> dryContactDoorClose ?s2" "\<not> dryContactToggleLight ?s2"
    using obstructionLoop_capture [of cfg now rd ?s1] assms(7,8) by auto
  have d2: "doorState ?s2 = doorState s" "rotaryEncoderDetected ?s2"
    "lastDoorPositionCounter ?s2 = lastDoorPositionCounter s"
    "lastDirectionChangeCounter ?s2 = lastDirectionChangeCounter s"
    using obstructionLoop_door_fields [of cfg now rd ?s1] assms(3) by simp_all
  have st: "doorState ?s3 \<noteq> Open \<and> doorState ?s3 \<noteq> Opening"
    using doorStateLoop_still [of ?s2 cfg now rd] d2 c2(1) assms(4-6) band
    by (cases "doorState s") auto
  have f3: "dryContactDoorOpen ?s3" "\<not> dryContactDoorClose ?s3" "\<not> dryContactToggleLight ?s3"
    using doorStateLoop_flags [of cfg now rd ?s2] c2(2-4) by simp_all
  have k: "payloads (out ?s3) = payloads (out s)" "rollingCodeCounter ?s3 = rollingCodeCounter s"
    using passes_keep_codes [of cfg now rd ?s1] passes_keep_codes [of cfg now rd ?s2] by simp_all
  have dc: "dryContactLoop cfg ?s3 = openDoor cfg (?s3\<lparr>dryContactDoorOpen := False\<rparr>)"
    using f3 by (simp add: dryContactLoop_def command_flags)
  have "payloads (out (openDoor cfg (?s3\<lparr>dryContactDoorOpen := False\<rparr>)))
          = payloads (out ?s3) @ rolling_codes cfg (rollingCodeCounter ?s3) [''door1'', ''door2'']
    \<and> doorState (openDoor cfg (?s3\<lparr>dryContactDoorOpen := False\<rparr>)) = Opening"
    using st assms(2) by (simp add: openDoor_def protocol_eqs effect_simps)
  then show ?thesis using run dc k by simp
qed
lemma closing_demo_facts:
  "reachable demo_cfg 100 closing_demo"
  "rotaryEncoderDetected closing_demo" "doorPositionCounter closing_demo = lastDoorPositionCounter closing_demo"
  "lastCounterMillis closing_demo = 3100" "\<not> dryContactDoorOpen closing_demo" "\<not> dryContactDoorClose closing_demo"
  "\<not> dryContactToggleLight closing_demo" "doorState closing_demo = Closing"
proof -
  show "reachable demo_cfg 100 closing_demo"
    unfolding closing_demo_def by (rule reachable_run [OF reachable.boot])
  have ev: "closing_demo = ratgdo_loop demo_cfg 3100 (\<lambda>p. p = INPUT_RPM1)
      (rpm_cycles (\<lambda>p. p = INPUT_RPM1) [3000, 3010, 3020, 3030, 3040, 3050] (ratgdo_setup demo_cfg (power_on 100)))"
    by (simp add: closing_demo_def ratgdo_run_def rpm_cycles_def)
  show "rotaryEncoderDetected closing_demo" "doorPositionCounter closing_demo = lastDoorPositionCounter closing_demo"
    "lastCounterMillis closing_demo = 3100" "\<not> dryContactDoorOpen closing_demo" "\<not> dryContactDoorClose closing_demo"
    "\<not> dryContactToggleLight closing_demo" "doorState closing_demo = Closing"
    unfolding ev
    by (simp_all add: ratgdo_loop_def rpm_cycles_def isrRPM1_def isrRPM2_def ratgdo_setup_def sync_def syncCodes_def
        power_on_def readCounterFromFlash_def protocol_eqs effect_simps demo_cfg_def
        obstructionLoop_def obstructionClassify_def obstructionWindowEnd_def doorStateLoop_def
        reedSwitchStep_def encoderSample_def directionDetect_def stopDetect_def dryContactLoop_def)
qed

theorem stillness_settles_witness:
  "doorState (ratgdo_step demo_cfg closing_demo (EvLoop 3600 (\<lambda>p. p = INPUT_RPM1))) = Closed"
proof -
  have late: "3600 - lastCounterMillis closing_demo > 250" by (simp add: closing_demo_facts)
  show ?thesis
    using stillness_settles [OF closing_demo_facts(1-3) late closing_demo_facts(5-7), of "\<lambda>p. p = INPUT_RPM1"]
    by (simp add: closing_demo_facts(8))
qed

theorem button_press_opens_witness:
  "doorState (ratgdo_run demo_cfg closing_demo
     [EvDoorOpen 4000 (\<lambda>_. LOW), EvDoorOpen (4000 + 600) (\<lambda>_. HIGH), EvLoop 4700 (\<lambda>_. LOW)]) = Opening"
proof -
  have h: "useRollingCodes demo_cfg" "doorState closing_demo \<noteq> Open" "doorState closing_demo \<noteq> Opening"
    "2000 \<le> (4000 :: ms)" "2000 \<le> (4000 + 600 :: ms)" "500 < (600 :: ms)" "(600 :: ms) < 10000"
    "(\<lambda>_. LOW) TRIGGER_OPEN = LOW" "(\<lambda>_. HIGH) TRIGGER_OPEN = HIGH"
    by (simp_all add: demo_cfg_def closing_demo_facts)
  show ?thesis
    using button_press_opens [of demo_cfg 100 closing_demo 4000 600 "\<lambda>_. LOW" "\<lambda>_. HIGH" 4700 "\<lambda>_. LOW"]
      closing_demo_facts(1-3,6,7) h
    by simp
qed

theorem obstruction_reported_once_witness:
  "out (obst_windows demo_cfg (\<lambda>p. p = INPUT_OBST) [300, 360, 420, 480] (power_on 0))
     = DigitalWrite STATUS_OBST HIGH # status_msgs demo_cfg obstructionStatusTopic ''obstructed''"
proof -
  have h: "\<not> doorIsObstructed (power_on 0)" "obstructionLowCount (power_on 0) = 0"
    "(\<lambda>p. p = INPUT_OBST) INPUT_OBST = HIGH" "50 < 300 - lastMillis (power_on 0)"
    "250 < 300 - lastInterruptTime (power_on 0)" "window_times 300 [360, 420, 480]"
    "\<forall>t' \<in> set [300, 360, 420, 480]. 70 < t' - lastObstructionHigh (power_on 0)"
    by (simp_all add: power_on_def)
  show ?thesis
    using Obstruction.obstruction_reported_once [where s = "power_on 0" and rd = "\<lambda>p. p = INPUT_OBST"
        and t = 300 and ts = "[360, 420, 480]" and cfg = demo_cfg] h
    by (simp add: power_on_def)
qed

theorem obstruction_reannounced_witness:
  "out (obstructionLoop demo_cfg 400 (\<lambda>p. p = INPUT_OBST) (power_on 0\<lparr>doorIsObstructed := True\<rparr>))
     = DigitalWrite STATUS_OBST HIGH # status_msgs demo_cfg obstructionStatusTopic ''obstructed''"
proof -
  let ?s = "power_on 0\<lparr>doorIsObstructed := True\<rparr>"
  have h: "doorIsObstructed ?s" "obstructionLowCount ?s = 0" "(\<lambda>p. p = INPUT_OBST) INPUT_OBST = HIGH"
    "50 < 400 - lastMillis ?s" "250 < 400 - lastInterruptTime ?s" "70 < 400 - lastObstructionHigh ?s"
    by (simp_all add: power_on_def)
  show ?thesis
    using Obstruction.obstruction_reannounced [where s = ?s and rd = "\<lambda>p. p = INPUT_OBST" and t = 400
        and cfg = demo_cfg] h
    by (simp add: power_on_def)
qed

end
